theory Spec2Isabelle
  imports Complex_Main
begin

section \<open>Modelling conventions\<close>

text \<open>
  The program is the Python package \<^verbatim>\<open>color_sentence\<close>. Its values are modelled as
  follows.

  \<^item> A Python \<^verbatim>\<open>str\<close> is a sequence of Unicode code points: a \<open>nat list\<close>. ASCII text is
    written with \<open>lit ''...''\<close>; other characters by their code point.
  \<^item> A Python \<^verbatim>\<open>int\<close> is an \<open>int\<close>; an \<^verbatim>\<open>RGB\<close> tuple is a triple of them.
  \<^item> A Python \<^verbatim>\<open>float\<close> is modelled by an exact rational number: the binary rounding of
    each operation is left out. \<^verbatim>\<open>round(x)\<close> rounds half to even, as Python 3 does.
  \<^item> An exception is a value \<open>Inl e\<close> of a sum type.
  \<^item> The Unicode tables of the runtime are written out where they are small
    (\<^verbatim>\<open>str.isspace\<close>, the characters that lower-case into \<^verbatim>\<open>a..z\<close>); the table behind the
    regular expression class \<^verbatim>\<open>\w\<close> is a parameter \<open>W\<close> of every function that matches
    patterns, and \<open>word_latin1\<close> is that table on the code points below 256.
  \<^item> The remote name lookup is a parameter giving the outcome of the call; speech output has
    no effect on the returned value and is left out.
\<close>

datatype py_error = TypeError | KeyError | ZeroDivisionError

type_synonym ustr = "nat list"

type_synonym RGB = "int \<times> int \<times> int"

definition lit :: "string \<Rightarrow> ustr" where
  "lit s = map of_char s"

definition py_round :: "rat \<Rightarrow> int" where
  "py_round x =
     (let f = \<lfloor>x\<rfloor>; d = x - of_int f
      in if d < 1 / 2 then f
         else if 1 / 2 < d then f + 1
         else if even f then f else f + 1)"

definition dict_get :: "('k \<times> 'v) list \<Rightarrow> 'k \<Rightarrow> py_error + 'v" where
  \<comment> \<open>\<^verbatim>\<open>d[k]\<close>: raises KeyError on a missing key\<close>
  "dict_get d k = (case map_of d k of None \<Rightarrow> Inl KeyError | Some v \<Rightarrow> Inr v)"

section \<open>Runtime library\<close>

definition py_isspace :: "nat \<Rightarrow> bool" where
  \<comment> \<open>\<^verbatim>\<open>str.isspace\<close> on one character; \<^verbatim>\<open>str.rstrip()\<close> strips the same set\<close>
  "py_isspace c \<longleftrightarrow>
     (0x9 \<le> c \<and> c \<le> 0xD) \<or> (0x1C \<le> c \<and> c \<le> 0x20) \<or> c = 0x85 \<or> c = 0xA0 \<or> c = 0x1680 \<or>
     (0x2000 \<le> c \<and> c \<le> 0x200A) \<or> c = 0x2028 \<or> c = 0x2029 \<or> c = 0x202F \<or> c = 0x205F \<or>
     c = 0x3000"

definition ascii_upper :: "nat \<Rightarrow> bool" where
  "ascii_upper c \<longleftrightarrow> 0x41 \<le> c \<and> c \<le> 0x5A"

definition ascii_lower :: "nat \<Rightarrow> bool" where
  "ascii_lower c \<longleftrightarrow> 0x61 \<le> c \<and> c \<le> 0x7A"

definition ascii_letter :: "nat \<Rightarrow> bool" where
  \<comment> \<open>the regular expression class \<^verbatim>\<open>[A-Za-z]\<close>, compiled without IGNORECASE\<close>
  "ascii_letter c \<longleftrightarrow> ascii_upper c \<or> ascii_lower c"

definition py_lower :: "nat \<Rightarrow> ustr" where
  \<comment> \<open>\<^verbatim>\<open>str.lower\<close> on one character. Exactly \<^verbatim>\<open>A..Z\<close>, U+212A (Kelvin sign) and U+0130
      (capital I with dot above) lower-case to a string that starts in \<^verbatim>\<open>a..z\<close>, and U+0130
      is the only character whose lower-case form has two characters. Every other
      character is left as it is: its real lower-case form also starts outside \<^verbatim>\<open>a..z\<close>,
      which is all this program asks of it.\<close>
  "py_lower c =
     (if ascii_upper c then [c + 32]
      else if c = 0x212A then [0x6B]
      else if c = 0x130 then [0x69, 0x307]
      else [c])"

definition py_lower_str :: "ustr \<Rightarrow> ustr" where
  "py_lower_str s = concat (map py_lower s)"

fun str_le :: "ustr \<Rightarrow> ustr \<Rightarrow> bool" where
  \<comment> \<open>\<^verbatim>\<open>s <= t\<close> on strings: lexicographic by code point\<close>
  "str_le [] t = True"
| "str_le (a # s) [] = False"
| "str_le (a # s) (b # t) = (a < b \<or> (a = b \<and> str_le s t))"

definition py_ord :: "ustr \<Rightarrow> py_error + nat" where
  \<comment> \<open>\<^verbatim>\<open>ord(s)\<close>: TypeError unless the string has exactly one character\<close>
  "py_ord s = (case s of [c] \<Rightarrow> Inr c | _ \<Rightarrow> Inl TypeError)"

definition py_rstrip :: "ustr \<Rightarrow> ustr" where
  "py_rstrip s = rev (dropWhile py_isspace (rev s))"

definition endswith :: "ustr \<Rightarrow> nat \<Rightarrow> bool" where
  \<comment> \<open>\<^verbatim>\<open>s.endswith(c)\<close> for a one-character string \<open>c\<close>\<close>
  "endswith s c \<longleftrightarrow> s \<noteq> [] \<and> last s = c"

definition word_latin1 :: "nat \<Rightarrow> bool" where
  \<comment> \<open>the class \<^verbatim>\<open>\w\<close> of a Unicode pattern, on the code points below 256\<close>
  "word_latin1 c \<longleftrightarrow>
     (0x30 \<le> c \<and> c \<le> 0x39) \<or> ascii_upper c \<or> c = 0x5F \<or> ascii_lower c \<or> c = 0xAA \<or>
     c = 0xB2 \<or> c = 0xB3 \<or> c = 0xB5 \<or> c = 0xB9 \<or> c = 0xBA \<or> (0xBC \<le> c \<and> c \<le> 0xBE) \<or>
     (0xC0 \<le> c \<and> c \<le> 0xD6) \<or> (0xD8 \<le> c \<and> c \<le> 0xF6) \<or> (0xF8 \<le> c \<and> c \<le> 0xFF)"

section \<open>core/normalization.py\<close>

definition mapping_de :: "(nat \<times> ustr) list" where
  "mapping_de =
     [(0xE4, lit ''ae''), (0xF6, lit ''oe''), (0xFC, lit ''ue''),
      (0xC4, lit ''Ae''), (0xD6, lit ''Oe''), (0xDC, lit ''Ue''),
      (0xDF, lit ''ss'')]"

definition replacement :: "nat \<Rightarrow> ustr" where
  \<comment> \<open>\<^verbatim>\<open>mapping.get(ch, ch)\<close>\<close>
  "replacement ch = (case map_of mapping_de ch of None \<Rightarrow> [ch] | Some r \<Rightarrow> r)"

fun transliterate_loop :: "ustr \<Rightarrow> ustr list \<Rightarrow> ustr list" where
  \<comment> \<open>the \<^verbatim>\<open>for ch in text\<close> loop, appending to \<^verbatim>\<open>output_chars\<close>\<close>
  "transliterate_loop [] output_chars = output_chars"
| "transliterate_loop (ch # rest) output_chars =
     transliterate_loop rest (output_chars @ [replacement ch])"

definition transliterate_de :: "ustr \<Rightarrow> ustr" where
  "transliterate_de s = concat (transliterate_loop s [])"

fun visible_loop :: "ustr \<Rightarrow> int \<Rightarrow> int" where
  "visible_loop [] count = count"
| "visible_loop (ch # rest) count =
     visible_loop rest (if \<not> py_isspace ch then count + 1 else count)"

definition visible_len :: "ustr \<Rightarrow> int" where
  "visible_len s = visible_loop s 0"

definition letters_only :: "ustr \<Rightarrow> ustr" where
  \<comment> \<open>\<^verbatim>\<open>ASCII_LETTERS_PATTERN.findall(text)\<close>: every one-character match, in order\<close>
  "letters_only s = filter ascii_letter s"

section \<open>config\<close>

datatype Denominator = VISIBLE | LETTERS | RGB_HITS

datatype ComputeMode = FREQ | ANCHOR

record ComputeResult =
  rgb :: RGB
  hex :: string
  name :: string

record ComputeConfig =
  denominator :: Denominator
  punctuation_mods :: bool
  apply_length_floor :: bool
  mode :: ComputeMode

record LengthFloorConfig =
  short_visible_max :: int
  long_visible_min :: int
  bright_at_short :: int
  bright_at_long :: int
  linear_step :: int

record PunctuationConfig =
  weight_exclamation :: int
  weight_question :: int
  end_bonus :: int
  score_min :: int
  score_max :: int
  bright_per_score :: rat
  sat_per_score :: rat

record AnchorConfig =
  index_r :: int
  index_g :: int
  index_b :: int

definition LENGTH_FLOOR :: LengthFloorConfig where
  "LENGTH_FLOOR = \<lparr>short_visible_max = 6, long_visible_min = 30, bright_at_short = 200,
     bright_at_long = 80, linear_step = 5\<rparr>"

definition PUNCT :: PunctuationConfig where
  "PUNCT = \<lparr>weight_exclamation = 2, weight_question = - 1, end_bonus = 1, score_min = - 3,
     score_max = 3, bright_per_score = 15 / 100, sat_per_score = 10 / 100\<rparr>"

definition ANCHOR_cfg :: AnchorConfig where
  \<comment> \<open>the constant \<^verbatim>\<open>ANCHOR\<close> of config.py\<close>
  "ANCHOR_cfg = \<lparr>index_r = 17, index_g = 6, index_b = 1\<rparr>"

definition default_config :: ComputeConfig where
  \<comment> \<open>\<^verbatim>\<open>ComputeConfig()\<close>\<close>
  "default_config = \<lparr>denominator = VISIBLE, punctuation_mods = True,
     apply_length_floor = True, mode = FREQ\<rparr>"

definition api_distance_max :: rat where
  "api_distance_max = 20"

text \<open>config/color\_naming\_config.py\<close>

type_synonym HueBand = "rat \<times> rat \<times> string"

definition start_inclusive :: "HueBand \<Rightarrow> rat" where
  "start_inclusive band = fst band"

definition end_exclusive :: "HueBand \<Rightarrow> rat" where
  "end_exclusive band = fst (snd band)"

definition band_name :: "HueBand \<Rightarrow> string" where
  "band_name band = snd (snd band)"

definition HSV_BLACK_VALUE_MAX :: rat where
  "HSV_BLACK_VALUE_MAX = 12 / 100"

definition HSV_WHITE_VALUE_MIN :: rat where
  "HSV_WHITE_VALUE_MIN = 92 / 100"

definition HSV_WHITE_SAT_MAX :: rat where
  "HSV_WHITE_SAT_MAX = 15 / 100"

definition HSV_GRAY_SAT_MAX :: rat where
  "HSV_GRAY_SAT_MAX = 12 / 100"

definition DEGREES_FULL_CIRCLE :: rat where
  "DEGREES_FULL_CIRCLE = 360"

definition HUE_BANDS :: "HueBand list" where
  "HUE_BANDS =
     [(0, 12, ''red''), (12, 35, ''orange''), (35, 55, ''yellow''), (55, 85, ''lime''),
      (85, 165, ''green''), (165, 200, ''cyan''), (200, 250, ''blue''), (250, 285, ''indigo''),
      (285, 320, ''purple''), (320, 350, ''magenta'')]"

definition DEFAULT_HUE_NAME :: string where
  "DEFAULT_HUE_NAME = ''pinkish''"

text \<open>config/overrides\_config.py\<close>

definition OVERRIDE_COLOR_RGB :: "(string \<times> RGB) list" where
  "OVERRIDE_COLOR_RGB =
     [(''rot'', (255, 0, 0)), (''gruen'', (0, 255, 0)), (''blau'', (0, 0, 255)),
      (''gelb'', (255, 255, 0)), (''orange'', (255, 165, 0)), (''lila'', (180, 0, 255)),
      (''violett'', (148, 0, 211)), (''magenta'', (255, 0, 255)), (''pink'', (255, 105, 180)),
      (''tuerkis'', (64, 224, 208)), (''cyan'', (0, 255, 255)), (''braun'', (150, 75, 0)),
      (''grau'', (128, 128, 128)), (''weiss'', (255, 255, 255)), (''schwarz'', (0, 0, 0)),
      (''gold'', (212, 175, 55)), (''silber'', (192, 192, 192)), (''bronze'', (205, 127, 50)),
      (''kupfer'', (184, 115, 51)), (''messing'', (181, 166, 66)), (''beige'', (245, 245, 220)),
      (''oliv'', (128, 128, 0)), (''mint'', (170, 255, 195)), (''khaki'', (195, 176, 145))]"

definition OVERRIDE_COLOR_STEMS :: "(string \<times> string list) list" where
  "OVERRIDE_COLOR_STEMS =
     [(''rot'', [''rot'', ''roet'']), (''gruen'', [''gruen'']), (''blau'', [''blau'', ''blaeu'']),
      (''gelb'', [''gelb'']), (''braun'', [''braun'', ''braeun'']), (''orange'', [''orange'']),
      (''lila'', [''lila'']), (''violett'', [''violett'']), (''magenta'', [''magenta'']),
      (''pink'', [''pink'']), (''tuerkis'', [''tuerkis'']), (''cyan'', [''cyan'']),
      (''grau'', [''grau'']), (''weiss'', [''weiss'']), (''schwarz'', [''schwarz'']),
      (''gold'', [''gold'']), (''silber'', [''silber'', ''silbern'']),
      (''bronze'', [''bronze'', ''bronzen'']), (''kupfer'', [''kupfer'']),
      (''messing'', [''messing'']), (''beige'', [''beige'']), (''oliv'', [''oliv'']),
      (''mint'', [''mint'']), (''khaki'', [''khaki''])]"

definition OVERRIDE_SUFFIX_WEIGHTS :: "(ustr \<times> rat) list" where
  "OVERRIDE_SUFFIX_WEIGHTS =
     [(lit [], 70 / 100), (lit ''farben'', 60 / 100), (lit ''farbig'', 60 / 100),
      (lit ''stichig'', 50 / 100), (lit ''lich'', 35 / 100)]"

definition BASE_WORD_SUFFIX_KEY :: ustr where
  "BASE_WORD_SUFFIX_KEY = lit []"

section \<open>core/color\_math.py\<close>

definition MIN_BYTE :: int where
  "MIN_BYTE = 0"

definition MAX_BYTE :: int where
  "MAX_BYTE = 255"

definition clamp_byte :: "int \<Rightarrow> int" where
  "clamp_byte v = (if v < MIN_BYTE then MIN_BYTE else if v > MAX_BYTE then MAX_BYTE else v)"

definition hex_digit :: "nat \<Rightarrow> char" where
  "hex_digit d = (''0123456789ABCDEF'') ! (d mod 16)"

fun hex_digits :: "nat \<Rightarrow> string" where
  \<comment> \<open>upper-case hexadecimal digits of a number, without leading zeros\<close>
  "hex_digits n = (if n < 16 then [hex_digit n] else hex_digits (n div 16) @ [hex_digit (n mod 16)])"

definition format_02X :: "int \<Rightarrow> string" where
  \<comment> \<open>the format specification \<^verbatim>\<open>:02X\<close>: zero padding to width 2, after the sign\<close>
  "format_02X n =
     (if n < 0 then
        (let ds = hex_digits (nat (- n)) in CHR ''-'' # replicate (1 - length ds) CHR ''0'' @ ds)
      else
        (let ds = hex_digits (nat n) in replicate (2 - length ds) CHR ''0'' @ ds))"

definition rgb_to_hex :: "int \<Rightarrow> int \<Rightarrow> int \<Rightarrow> string" where
  "rgb_to_hex red green blue = CHR ''#'' # format_02X red @ format_02X green @ format_02X blue"

definition frac_part :: "rat \<Rightarrow> rat" where
  \<comment> \<open>\<^verbatim>\<open>x % 1.0\<close>\<close>
  "frac_part x = x - of_int \<lfloor>x\<rfloor>"

definition rgb_to_hsv :: "rat \<Rightarrow> rat \<Rightarrow> rat \<Rightarrow> py_error + (rat \<times> rat \<times> rat)" where
  \<comment> \<open>\<^verbatim>\<open>colorsys.rgb_to_hsv\<close> of the standard library\<close>
  "rgb_to_hsv r g b =
     (let maxc = max r (max g b); minc = min r (min g b); rangec = maxc - minc; v = maxc
      in if minc = maxc then Inr (0, 0, v)
         else if maxc = 0 then Inl ZeroDivisionError
         else
           (let s = rangec / maxc;
                rc = (maxc - r) / rangec;
                gc = (maxc - g) / rangec;
                bc = (maxc - b) / rangec;
                h = (if r = maxc then bc - gc
                     else if g = maxc then 2 + rc - bc
                     else 4 + gc - rc)
            in Inr (frac_part (h / 6), s, v)))"

fun first_band :: "HueBand list \<Rightarrow> rat \<Rightarrow> string option" where
  \<comment> \<open>the \<^verbatim>\<open>for band in HUE_BANDS\<close> loop: the first band that holds the hue\<close>
  "first_band [] hue_degrees = None"
| "first_band (band # bands) hue_degrees =
     (if start_inclusive band \<le> hue_degrees \<and> hue_degrees < end_exclusive band
      then Some (band_name band)
      else first_band bands hue_degrees)"

definition approx_color_name :: "int \<Rightarrow> int \<Rightarrow> int \<Rightarrow> py_error + string" where
  "approx_color_name red green blue =
     (let red_norm = of_int red / of_int MAX_BYTE;
          green_norm = of_int green / of_int MAX_BYTE;
          blue_norm = of_int blue / of_int MAX_BYTE
      in case rgb_to_hsv red_norm green_norm blue_norm of
           Inl e \<Rightarrow> Inl e
         | Inr (hue_fraction, saturation, val) \<Rightarrow>
             (let hue_degrees = hue_fraction * DEGREES_FULL_CIRCLE
              in if val < HSV_BLACK_VALUE_MAX then Inr ''black''
                 else if val > HSV_WHITE_VALUE_MIN \<and> saturation < HSV_WHITE_SAT_MAX
                   then Inr ''white''
                 else if saturation < HSV_GRAY_SAT_MAX then Inr ''gray''
                 else (case first_band HUE_BANDS hue_degrees of
                         Some n \<Rightarrow> Inr n
                       | None \<Rightarrow> Inr DEFAULT_HUE_NAME)))"

definition apply_saturation :: "RGB \<Rightarrow> rat \<Rightarrow> RGB" where
  "apply_saturation c saturation_multiplier =
     (case c of (red_in, green_in, blue_in) \<Rightarrow>
        (let mean_value = of_int (red_in + green_in + blue_in) / 3;
             adjust = (\<lambda>channel.
               clamp_byte (py_round (mean_value + (of_int channel - mean_value) * saturation_multiplier)))
         in (adjust red_in, adjust green_in, adjust blue_in)))"

definition apply_brightness :: "RGB \<Rightarrow> rat \<Rightarrow> RGB" where
  "apply_brightness c brightness_multiplier =
     (case c of (red_in, green_in, blue_in) \<Rightarrow>
        (let adjust = (\<lambda>channel. clamp_byte (py_round (of_int channel * brightness_multiplier)))
         in (adjust red_in, adjust green_in, adjust blue_in)))"

section \<open>core/overrides.py\<close>

subsection \<open>The regular expression engine, on the patterns of this program\<close>

text \<open>
  Every pattern has the shape \<^verbatim>\<open>\b<stem>(farben|farbig|stichig|lich)?\w*\<close> and is compiled
  with IGNORECASE. A literal of the pattern matches a character of the text when the
  simple lower-case form of the character is the literal or one of its case-insensitive
  equivalents: U+0131 for \<^verbatim>\<open>i\<close>, U+017F for \<^verbatim>\<open>s\<close>.
\<close>

definition sre_lower :: "nat \<Rightarrow> nat" where
  \<comment> \<open>the simple lower-case mapping of the engine, right on every character that it sends
      to an ASCII letter; other characters are left as they are\<close>
  "sre_lower c =
     (if ascii_upper c then c + 32
      else if c = 0x130 then 0x69
      else if c = 0x212A then 0x6B
      else c)"

definition ignorecase_fixes :: "nat \<Rightarrow> nat list" where
  "ignorecase_fixes lo = (if lo = 0x69 then [0x131] else if lo = 0x73 then [0x17F] else [])"

definition literal_ignore :: "nat \<Rightarrow> nat \<Rightarrow> bool" where
  "literal_ignore p c \<longleftrightarrow> sre_lower c \<in> set (sre_lower p # ignorecase_fixes (sre_lower p))"

fun match_literal :: "ustr \<Rightarrow> ustr \<Rightarrow> bool" where
  \<comment> \<open>the literal string matches a prefix of the text\<close>
  "match_literal [] cs = True"
| "match_literal (p # ps) [] = False"
| "match_literal (p # ps) (c # cs) = (literal_ignore p c \<and> match_literal ps cs)"

definition SUFFIX_ALTERNATIVES :: "string list" where
  "SUFFIX_ALTERNATIVES = [''farben'', ''farbig'', ''stichig'', ''lich'']"

fun match_group :: "string list \<Rightarrow> ustr \<Rightarrow> ustr option" where
  \<comment> \<open>the optional group: the text matched by the first alternative that matches\<close>
  "match_group [] cs = None"
| "match_group (alt # alts) cs =
     (if match_literal (lit alt) cs then Some (take (length alt) cs) else match_group alts cs)"

definition word_boundary :: "(nat \<Rightarrow> bool) \<Rightarrow> nat option \<Rightarrow> ustr \<Rightarrow> bool" where
  \<comment> \<open>\<^verbatim>\<open>\b\<close> between the previous character, if any, and the rest of the text\<close>
  "word_boundary W prev cs \<longleftrightarrow>
     (case prev of None \<Rightarrow> False | Some p \<Rightarrow> W p) \<noteq> (case cs of [] \<Rightarrow> False | c # _ \<Rightarrow> W c)"

definition match_at :: "(nat \<Rightarrow> bool) \<Rightarrow> ustr \<Rightarrow> nat option \<Rightarrow> ustr \<Rightarrow> (ustr option \<times> nat) option" where
  \<comment> \<open>a match of the pattern that starts here: group 1 and the length of the match.
      The group and \<^verbatim>\<open>\w*\<close> are greedy and nothing follows them.\<close>
  "match_at W stem prev cs =
     (if word_boundary W prev cs \<and> match_literal stem cs then
        (let after_stem = drop (length stem) cs;
             grp = match_group SUFFIX_ALTERNATIVES after_stem;
             group_len = (case grp of None \<Rightarrow> 0 | Some raw \<Rightarrow> length raw);
             tail_len = length (takeWhile W (drop group_len after_stem))
         in Some (grp, length stem + group_len + tail_len))
      else None)"

fun finditer :: "(nat \<Rightarrow> bool) \<Rightarrow> ustr \<Rightarrow> nat option \<Rightarrow> nat \<Rightarrow> ustr \<Rightarrow> ustr option list" where
  \<comment> \<open>\<^verbatim>\<open>pattern.finditer(text)\<close>: group 1 of every match, left to right, without overlap.
      \<open>skip\<close> counts the characters still covered by the last match.\<close>
  "finditer W stem prev skip [] = []"
| "finditer W stem prev skip (c # cs) =
     (if 0 < skip then finditer W stem (Some c) (skip - 1) cs
      else (case match_at W stem prev (c # cs) of
              None \<Rightarrow> finditer W stem (Some c) 0 cs
            | Some (grp, n) \<Rightarrow> grp # finditer W stem (Some c) (n - 1) cs))"

subsection \<open>The override resolver\<close>

definition compile_color_patterns :: "(string \<times> string list) list \<Rightarrow> (string \<times> ustr) list" where
  \<comment> \<open>a compiled pattern is represented by its stem\<close>
  "compile_color_patterns stems_by_key =
     concat (map (\<lambda>(color_key, stems). map (\<lambda>stem. (color_key, lit stem)) stems) stems_by_key)"

definition COLOR_PATTERNS :: "(string \<times> ustr) list" where
  "COLOR_PATTERNS = compile_color_patterns OVERRIDE_COLOR_STEMS"

record accum =
  sum_red :: rat
  sum_green :: rat
  sum_blue :: rat
  sum_weight :: rat
  match_count :: nat

definition add_match :: "string \<Rightarrow> ustr option \<Rightarrow> accum \<Rightarrow> py_error + accum" where
  \<comment> \<open>the body of the inner loop, for one match with group 1 = \<open>raw_suffix\<close>\<close>
  "add_match color_key raw_suffix acc =
     (let suffix = (case raw_suffix of Some raw \<Rightarrow> py_lower_str raw | None \<Rightarrow> BASE_WORD_SUFFIX_KEY)
      in case dict_get OVERRIDE_SUFFIX_WEIGHTS BASE_WORD_SUFFIX_KEY of
           Inl e \<Rightarrow> Inl e
         | Inr dflt \<Rightarrow>
             (let weight_for_match =
                    (case map_of OVERRIDE_SUFFIX_WEIGHTS suffix of Some w \<Rightarrow> w | None \<Rightarrow> dflt)
              in case dict_get OVERRIDE_COLOR_RGB color_key of
                   Inl e \<Rightarrow> Inl e
                 | Inr (r, g, b) \<Rightarrow>
                     Inr (acc\<lparr>sum_red := sum_red acc + of_int r,
                              sum_green := sum_green acc + of_int g,
                              sum_blue := sum_blue acc + of_int b,
                              sum_weight := sum_weight acc + weight_for_match,
                              match_count := match_count acc + 1\<rparr>)))"

fun match_loop :: "string \<Rightarrow> ustr option list \<Rightarrow> accum \<Rightarrow> py_error + accum" where
  \<comment> \<open>\<^verbatim>\<open>for match in pattern.finditer(text_trans)\<close>\<close>
  "match_loop color_key [] acc = Inr acc"
| "match_loop color_key (raw_suffix # ms) acc =
     (case add_match color_key raw_suffix acc of
        Inl e \<Rightarrow> Inl e
      | Inr acc' \<Rightarrow> match_loop color_key ms acc')"

fun pattern_loop :: "(nat \<Rightarrow> bool) \<Rightarrow> (string \<times> ustr) list \<Rightarrow> ustr \<Rightarrow> accum \<Rightarrow> py_error + accum" where
  \<comment> \<open>\<^verbatim>\<open>for color_key, pattern in _COLOR_PATTERNS\<close>\<close>
  "pattern_loop W [] text_trans acc = Inr acc"
| "pattern_loop W ((color_key, stem) # ps) text_trans acc =
     (case match_loop color_key (finditer W stem None 0 text_trans) acc of
        Inl e \<Rightarrow> Inl e
      | Inr acc' \<Rightarrow> pattern_loop W ps text_trans acc')"

definition find_override_and_weight :: "(nat \<Rightarrow> bool) \<Rightarrow> ustr \<Rightarrow> py_error + (RGB \<times> rat) option" where
  "find_override_and_weight W text_trans =
     (case pattern_loop W COLOR_PATTERNS text_trans
             \<lparr>sum_red = 0, sum_green = 0, sum_blue = 0, sum_weight = 0, match_count = 0\<rparr> of
        Inl e \<Rightarrow> Inl e
      | Inr acc \<Rightarrow>
          if match_count acc = 0 then Inr None
          else
            (let avg_red = py_round (sum_red acc / of_nat (match_count acc));
                 avg_green = py_round (sum_green acc / of_nat (match_count acc));
                 avg_blue = py_round (sum_blue acc / of_nat (match_count acc));
                 avg_weight = sum_weight acc / of_nat (match_count acc)
             in case dict_get OVERRIDE_SUFFIX_WEIGHTS BASE_WORD_SUFFIX_KEY of
                  Inl e \<Rightarrow> Inl e
                | Inr base_weight \<Rightarrow>
                    Inr (Some ((avg_red, avg_green, avg_blue),
                               (if avg_weight < 0 then 0
                                else if avg_weight > base_weight then base_weight
                                else avg_weight)))))"

section \<open>core/engine.py\<close>

definition to_byte_0_1 :: "rat \<Rightarrow> int" where
  "to_byte_0_1 v =
     (let clamped = (if v < 0 then 0 else if v > 1 then 1 else v);
          scaled = clamped * 255
      in py_round scaled)"

definition length_floor_target :: "int \<Rightarrow> int" where
  \<comment> \<open>\<^verbatim>\<open>round\<close> of an \<^verbatim>\<open>int\<close> is that \<^verbatim>\<open>int\<close>\<close>
  "length_floor_target visible_count =
     (if visible_count \<le> short_visible_max LENGTH_FLOOR then bright_at_short LENGTH_FLOOR
      else if visible_count \<ge> long_visible_min LENGTH_FLOOR then bright_at_long LENGTH_FLOOR
      else (let delta = visible_count - short_visible_max LENGTH_FLOOR
            in bright_at_short LENGTH_FLOOR - linear_step LENGTH_FLOOR * delta))"

definition apply_length_floor_fn :: "RGB \<Rightarrow> int \<Rightarrow> ComputeConfig \<Rightarrow> RGB" where
  \<comment> \<open>\<^verbatim>\<open>_apply_length_floor\<close>; the name without suffix is the field of the configuration\<close>
  "apply_length_floor_fn c base_count cfg =
     (if \<not> apply_length_floor cfg \<or> base_count \<le> 0 then c
      else (case c of (red, green, blue) \<Rightarrow>
        (let current_max = max red (max green blue);
             target_max = length_floor_target base_count
         in if current_max \<le> 0 \<or> current_max \<ge> target_max then c
            else
              (let factor = of_int target_max / of_int current_max;
                   red_out = min 255 (py_round (of_int red * factor));
                   green_out = min 255 (py_round (of_int green * factor));
                   blue_out = min 255 (py_round (of_int blue * factor))
               in (red_out, green_out, blue_out)))))"

definition luminance_255 :: "RGB \<Rightarrow> rat" where
  "luminance_255 c =
     (case c of (red, green, blue) \<Rightarrow>
        2126 / 10000 * of_int red + 7152 / 10000 * of_int green + 722 / 10000 * of_int blue)"

definition py_count :: "ustr \<Rightarrow> nat \<Rightarrow> int" where
  \<comment> \<open>\<^verbatim>\<open>s.count(c)\<close> for a one-character string \<open>c\<close>\<close>
  "py_count s c = int (length (filter (\<lambda>x. x = c) s))"

definition punctuation_score :: "ustr \<Rightarrow> int" where
  \<comment> \<open>the variable \<^verbatim>\<open>score\<close> of \<^verbatim>\<open>_punctuation_multipliers\<close>, after clamping\<close>
  "punctuation_score original_text =
     (let count_excl = py_count original_text 0x21;
          count_quest = py_count original_text 0x3F;
          score = weight_exclamation PUNCT * count_excl + weight_question PUNCT * count_quest;
          tail = py_rstrip original_text;
          score = (if endswith tail 0x21 then score + end_bonus PUNCT
                   else if endswith tail 0x3F then score - end_bonus PUNCT
                   else score)
      in if score < score_min PUNCT then score_min PUNCT
         else if score > score_max PUNCT then score_max PUNCT
         else score)"

definition punctuation_multipliers :: "ustr \<Rightarrow> rat \<times> rat" where
  "punctuation_multipliers original_text =
     (let score = punctuation_score original_text;
          brightness_multiplier = 1 + bright_per_score PUNCT * of_int score;
          saturation_multiplier = 1 + sat_per_score PUNCT * of_int score
      in (brightness_multiplier, saturation_multiplier))"

definition count_in :: "ustr \<Rightarrow> string \<Rightarrow> int" where
  \<comment> \<open>\<^verbatim>\<open>sum(1 for ch in letters if ch in s)\<close>\<close>
  "count_in letters s = int (length (filter (\<lambda>ch. ch \<in> set (lit s)) letters))"

definition compute_rgb_freq :: "ustr \<Rightarrow> Denominator \<Rightarrow> RGB \<times> int" where
  "compute_rgb_freq text_trans denom =
     (let letters = letters_only text_trans;
          base_count = (case denom of
                          VISIBLE \<Rightarrow> visible_len text_trans
                        | LETTERS \<Rightarrow> int (length letters)
                        | RGB_HITS \<Rightarrow> max 1 (count_in letters ''rRgGbB''));
          red_count = count_in letters ''rR'';
          green_count = count_in letters ''gG'';
          blue_count = count_in letters ''bB'';
          red = to_byte_0_1 (if base_count > 0 then of_int red_count / of_int base_count else 0);
          green = to_byte_0_1 (if base_count > 0 then of_int green_count / of_int base_count else 0);
          blue = to_byte_0_1 (if base_count > 0 then of_int blue_count / of_int base_count else 0)
      in ((red, green, blue), base_count))"

definition letter_index :: "nat \<Rightarrow> py_error + int option" where
  "letter_index letter =
     (let lower = py_lower letter
      in if str_le (lit ''a'') lower \<and> str_le lower (lit ''z'') then
           (case py_ord lower of
              Inl e \<Rightarrow> Inl e
            | Inr code \<Rightarrow> Inr (Some (int code - 0x61)))
         else Inr None)"

definition circular_distance :: "int \<Rightarrow> int \<Rightarrow> int" where
  \<comment> \<open>the body of the loop over the three anchors\<close>
  "circular_distance alpha_index idx =
     (let forward = (alpha_index - idx) mod 26;
          backward = (idx - alpha_index) mod 26
      in if forward < backward then forward else backward)"

definition nearest_anchor_keys :: "int \<Rightarrow> char list" where
  "nearest_anchor_keys alpha_index =
     (let distances =
            map (\<lambda>(key, idx). (key, circular_distance alpha_index idx))
              [(CHR ''R'', index_r ANCHOR_cfg), (CHR ''G'', index_g ANCHOR_cfg),
               (CHR ''B'', index_b ANCHOR_cfg)];
          best_distance = min_list (map snd distances)
      in map fst (filter (\<lambda>(k, d). d = best_distance) distances))"

fun anchor_loop :: "ustr \<Rightarrow> (char \<Rightarrow> rat) \<Rightarrow> py_error + (char \<Rightarrow> rat)" where
  \<comment> \<open>\<^verbatim>\<open>for ch in text_trans\<close>, updating \<^verbatim>\<open>counts\<close>\<close>
  "anchor_loop [] counts = Inr counts"
| "anchor_loop (ch # rest) counts =
     (case letter_index ch of
        Inl e \<Rightarrow> Inl e
      | Inr None \<Rightarrow> anchor_loop rest counts
      | Inr (Some idx) \<Rightarrow>
          (let winners = nearest_anchor_keys idx;
               share = 1 / of_nat (length winners)
           in anchor_loop rest (fold (\<lambda>key cnt. cnt(key := cnt key + share)) winners counts)))"

definition compute_rgb_anchor :: "ustr \<Rightarrow> py_error + RGB" where
  "compute_rgb_anchor text_trans =
     (case anchor_loop text_trans (\<lambda>key. 0) of
        Inl e \<Rightarrow> Inl e
      | Inr counts \<Rightarrow>
          (let red_sum = counts CHR ''R'';
               green_sum = counts CHR ''G'';
               blue_sum = counts CHR ''B'';
               maximum = max red_sum (max green_sum blue_sum)
           in if maximum = 0 then Inr (0, 0, 0)
              else
                (let scale = 255 / maximum
                 in Inr (py_round (red_sum * scale), py_round (green_sum * scale),
                         py_round (blue_sum * scale)))))"

definition blend_override :: "(nat \<Rightarrow> bool) \<Rightarrow> RGB \<Rightarrow> ustr \<Rightarrow> py_error + RGB" where
  "blend_override W c text_trans =
     (case find_override_and_weight W text_trans of
        Inl e \<Rightarrow> Inl e
      | Inr None \<Rightarrow> Inr c
      | Inr (Some (override_rgb, weight)) \<Rightarrow>
          (case (c, override_rgb) of ((r, g, b), (r', g', b')) \<Rightarrow>
             Inr (py_round ((1 - weight) * of_int r + weight * of_int r'),
                  py_round ((1 - weight) * of_int g + weight * of_int g'),
                  py_round ((1 - weight) * of_int b + weight * of_int b'))))"

definition apply_punctuation :: "RGB \<Rightarrow> ustr \<Rightarrow> ComputeConfig \<Rightarrow> RGB" where
  "apply_punctuation c original_text cfg =
     (if \<not> punctuation_mods cfg then c
      else
        (let base_luminance = luminance_255 c;
             multipliers = punctuation_multipliers original_text;
             brightness_multiplier = fst multipliers;
             saturation_multiplier = snd multipliers;
             after_sat = apply_saturation c saturation_multiplier;
             after_bright = apply_brightness after_sat brightness_multiplier;
             new_luminance = luminance_255 after_bright
         in if brightness_multiplier < 1 \<and> new_luminance > base_luminance \<and> new_luminance > 0
            then apply_brightness after_bright (base_luminance / new_luminance)
            else if brightness_multiplier > 1 \<and> base_luminance > new_luminance
                    \<and> new_luminance > 0
            then apply_brightness after_bright (base_luminance / new_luminance)
            else after_bright))"

datatype lookup_outcome = Unavailable | Failed | Info string rat

text \<open>
  The outcome of the remote lookup for a hex code: \<open>Unavailable\<close> when the lookup module
  cannot be imported, \<open>Failed\<close> when the call raises one of the errors the engine catches,
  \<open>Info display_name distance\<close> otherwise.
\<close>

definition resolve_display_name ::
    "(string \<Rightarrow> lookup_outcome) \<Rightarrow> string \<Rightarrow> RGB \<Rightarrow> py_error + string" where
  "resolve_display_name pizza_lookup hex_code c =
     (case c of (r, g, b) \<Rightarrow>
        (case pizza_lookup hex_code of
           Unavailable \<Rightarrow> approx_color_name r g b
         | Failed \<Rightarrow> approx_color_name r g b
         | Info display_name distance \<Rightarrow>
             if distance \<le> api_distance_max then Inr display_name
             else approx_color_name r g b))"

definition base_rgb :: "ustr \<Rightarrow> ComputeConfig \<Rightarrow> py_error + RGB" where
  \<comment> \<open>the variable \<^verbatim>\<open>base_rgb\<close> of \<^verbatim>\<open>compute_color\<close>, after the branch on the mode\<close>
  "base_rgb text_trans cfg =
     (if mode cfg = FREQ then
        (let freq_result = compute_rgb_freq text_trans (denominator cfg)
         in Inr (apply_length_floor_fn (fst freq_result) (snd freq_result) cfg))
      else compute_rgb_anchor text_trans)"

definition with_override :: "(nat \<Rightarrow> bool) \<Rightarrow> ustr \<Rightarrow> ComputeConfig \<Rightarrow> py_error + RGB" where
  \<comment> \<open>the variable \<^verbatim>\<open>with_override\<close> of \<^verbatim>\<open>compute_color\<close>\<close>
  "with_override W original_text cfg =
     (let text_trans = transliterate_de original_text
      in case base_rgb text_trans cfg of
           Inl e \<Rightarrow> Inl e
         | Inr c \<Rightarrow> blend_override W c text_trans)"

definition compute_color ::
    "(nat \<Rightarrow> bool) \<Rightarrow> (string \<Rightarrow> lookup_outcome) \<Rightarrow> ustr \<Rightarrow> ComputeConfig
       \<Rightarrow> py_error + ComputeResult" where
  "compute_color W pizza_lookup original_text cfg =
     (case with_override W original_text cfg of
        Inl e \<Rightarrow> Inl e
      | Inr c \<Rightarrow>
          (let with_punct = apply_punctuation c original_text cfg;
               hex_code = (case with_punct of (r, g, b) \<Rightarrow> rgb_to_hex r g b)
           in case resolve_display_name pizza_lookup hex_code with_punct of
                Inl e \<Rightarrow> Inl e
              | Inr display_name \<Rightarrow>
                  Inr \<lparr>rgb = with_punct, hex = hex_code, name = display_name\<rparr>))"

section \<open>Notions of the specification\<close>

definition rgb_in_range :: "RGB \<Rightarrow> bool" where
  \<comment> \<open>every channel is in \<open>[0, 255]\<close>\<close>
  "rgb_in_range c =
     (case c of (r, g, b) \<Rightarrow> 0 \<le> r \<and> r \<le> 255 \<and> 0 \<le> g \<and> g \<le> 255 \<and> 0 \<le> b \<and> b \<le> 255)"

definition hex_byte :: "int \<Rightarrow> string" where
  \<comment> \<open>a channel as two upper-case hexadecimal digits\<close>
  "hex_byte n = [hex_digit (nat n div 16), hex_digit (nat n mod 16)]"

definition hex_encoding :: "RGB \<Rightarrow> string" where
  \<comment> \<open>the encoding \<^verbatim>\<open>#RRGGBB\<close>\<close>
  "hex_encoding c = (case c of (r, g, b) \<Rightarrow> CHR ''#'' # hex_byte r @ hex_byte g @ hex_byte b)"

definition digraph :: "nat \<Rightarrow> ustr" where
  \<comment> \<open>the transliteration of one character, in the words of the specification\<close>
  "digraph ch =
     (if ch = 0xE4 then lit ''ae'' else if ch = 0xF6 then lit ''oe''
      else if ch = 0xFC then lit ''ue'' else if ch = 0xDF then lit ''ss''
      else if ch = 0xC4 then lit ''Ae'' else if ch = 0xD6 then lit ''Oe''
      else if ch = 0xDC then lit ''Ue'' else [ch])"

definition all_matches :: "(nat \<Rightarrow> bool) \<Rightarrow> ustr \<Rightarrow> (string \<times> ustr option) list" where
  \<comment> \<open>every match of every pattern, as the color key with group 1; a list, so a match
      is there as often as it is found\<close>
  "all_matches W text_trans =
     concat (map (\<lambda>(color_key, stem). map (\<lambda>g. (color_key, g)) (finditer W stem None 0 text_trans))
               COLOR_PATTERNS)"

definition target_rgb :: "string \<Rightarrow> RGB" where
  "target_rgb color_key =
     (case map_of OVERRIDE_COLOR_RGB color_key of Some c \<Rightarrow> c | None \<Rightarrow> (0, 0, 0))"

definition suffix_weight :: "ustr option \<Rightarrow> rat" where
  \<comment> \<open>the weight of a match: that of its suffix, the bare-word weight without one\<close>
  "suffix_weight g =
     (case g of
        None \<Rightarrow> 70 / 100
      | Some raw \<Rightarrow>
          (case map_of OVERRIDE_SUFFIX_WEIGHTS (py_lower_str raw) of
             Some w \<Rightarrow> w
           | None \<Rightarrow> 70 / 100))"

definition mean :: "rat list \<Rightarrow> rat" where
  "mean xs = sum_list xs / of_nat (length xs)"

definition mean_override :: "(nat \<Rightarrow> bool) \<Rightarrow> ustr \<Rightarrow> (RGB \<times> rat) option" where
  \<comment> \<open>the result of the override resolver, in the words of the specification\<close>
  "mean_override W text_trans =
     (let ms = all_matches W text_trans
      in if ms = [] then None
         else Some ((py_round (mean (map (\<lambda>m. of_int (fst (target_rgb (fst m)))) ms)),
                     py_round (mean (map (\<lambda>m. of_int (fst (snd (target_rgb (fst m))))) ms)),
                     py_round (mean (map (\<lambda>m. of_int (snd (snd (target_rgb (fst m))))) ms))),
                    max 0 (min (70 / 100) (mean (map (\<lambda>m. suffix_weight (snd m)) ms)))))"





definition lowers_to_letter :: "nat \<Rightarrow> bool" where
  \<comment> \<open>the one-character lower-case form is one of \<^verbatim>\<open>a..z\<close>: an ASCII letter or the Kelvin sign\<close>
  "lowers_to_letter c \<longleftrightarrow> ascii_letter c \<or> c = 0x212A"

definition anchor_share :: "char \<Rightarrow> nat \<Rightarrow> rat" where
  \<comment> \<open>what one character gives to an anchor: an equal share of one point if the anchor is
      among the nearest\<close>
  "anchor_share key c =
     (if lowers_to_letter c then
        (let winners = nearest_anchor_keys (int (sre_lower c) - 0x61)
         in if key \<in> set winners then 1 / of_nat (length winners) else 0)
      else 0)"

definition anchor_sum :: "char \<Rightarrow> ustr \<Rightarrow> rat" where
  "anchor_sum key s = sum_list (map (anchor_share key) s)"

definition scaled_channel :: "rat \<Rightarrow> rat \<Rightarrow> int" where
  \<comment> \<open>the largest sum goes to 255, any other to its share of 255, rounded\<close>
  "scaled_channel m x = (if x = m then 255 else py_round (x * 255 / m))"

definition scaled_anchor_rgb :: "ustr \<Rightarrow> RGB" where
  "scaled_anchor_rgb s =
     (let m = max (anchor_sum CHR ''R'' s) (max (anchor_sum CHR ''G'' s) (anchor_sum CHR ''B'' s))
      in (scaled_channel m (anchor_sum CHR ''R'' s), scaled_channel m (anchor_sum CHR ''G'' s),
          scaled_channel m (anchor_sum CHR ''B'' s)))"

definition no_letters :: "ustr \<Rightarrow> bool" where
  \<comment> \<open>no character of the text counts as a letter \<^verbatim>\<open>a..z\<close>\<close>
  "no_letters s \<longleftrightarrow> filter lowers_to_letter s = []"

text \<open>The sums held by the accumulator after a list of matches.\<close>

definition matches_of :: "(nat \<Rightarrow> bool) \<Rightarrow> (string \<times> ustr) list \<Rightarrow> ustr \<Rightarrow> (string \<times> ustr option) list" where
  "matches_of W ps text_trans =
     concat (map (\<lambda>(color_key, stem). map (\<lambda>g. (color_key, g)) (finditer W stem None 0 text_trans)) ps)"

definition match_totals :: "(string \<times> ustr option) list \<Rightarrow> accum \<Rightarrow> accum" where
  "match_totals ms acc =
     acc\<lparr>sum_red := sum_red acc + sum_list (map (\<lambda>m. of_int (fst (target_rgb (fst m)))) ms),
         sum_green := sum_green acc + sum_list (map (\<lambda>m. of_int (fst (snd (target_rgb (fst m))))) ms),
         sum_blue := sum_blue acc + sum_list (map (\<lambda>m. of_int (snd (snd (target_rgb (fst m))))) ms),
         sum_weight := sum_weight acc + sum_list (map (\<lambda>m. suffix_weight (snd m)) ms),
         match_count := match_count acc + length ms\<rparr>"

section \<open>Evaluation and rounding lemmas\<close>

lemma floor_rat_numeral_div [simp]: "\<lfloor>numeral a / numeral b :: rat\<rfloor> = numeral a div numeral b"
  by (metis floor_divide_of_int_eq of_int_numeral)

lemma floor_rat_neg_numeral_div [simp]: "\<lfloor>- (numeral a / numeral b) :: rat\<rfloor> = - numeral a div numeral b"
  by (metis divide_minus_left floor_divide_of_int_eq of_int_neg_numeral of_int_numeral)

lemmas lib_defs = lit_def py_isspace_def ascii_upper_def ascii_lower_def ascii_letter_def
  py_lower_def py_lower_str_def py_ord_def py_rstrip_def endswith_def word_latin1_def dict_get_def

lemmas re_defs = sre_lower_def ignorecase_fixes_def literal_ignore_def SUFFIX_ALTERNATIVES_def
  word_boundary_def match_at_def compile_color_patterns_def COLOR_PATTERNS_def OVERRIDE_COLOR_STEMS_def

lemma py_round_of_int [simp]: "py_round (of_int n) = n"
  by (simp add: py_round_def)

lemma py_round_numeral [simp]: "py_round (numeral n) = numeral n"
  by (metis py_round_of_int of_int_numeral)

lemma py_round_zero [simp]: "py_round 0 = 0"
  using py_round_of_int [of 0] by simp

lemma py_round_one [simp]: "py_round 1 = 1"
  using py_round_of_int [of 1] by simp

lemma py_round_lower: "\<lfloor>x\<rfloor> \<le> py_round x"
  by (simp add: py_round_def Let_def)

lemma py_round_upper: "py_round x \<le> \<lfloor>x\<rfloor> + 1"
  by (simp add: py_round_def Let_def)

lemma py_round_mono:
  assumes "x \<le> y"
  shows "py_round x \<le> py_round y"
proof (cases "\<lfloor>x\<rfloor> = \<lfloor>y\<rfloor>")
  case True
  with assms have "x - of_int \<lfloor>x\<rfloor> \<le> y - of_int \<lfloor>y\<rfloor>"
    by simp
  with True show ?thesis
    by (simp add: py_round_def Let_def)
next
  case False
  with assms have "\<lfloor>x\<rfloor> < \<lfloor>y\<rfloor>"
    by (simp add: floor_mono order.not_eq_order_implies_strict)
  then have "py_round x \<le> \<lfloor>y\<rfloor>"
    using py_round_upper [of x] by linarith
  then show ?thesis
    using py_round_lower [of y] by linarith
qed

lemma py_round_ge: "of_int a \<le> x \<Longrightarrow> a \<le> py_round x"
  using py_round_mono [of "of_int a" x] by simp

lemma py_round_le: "x \<le> of_int b \<Longrightarrow> py_round x \<le> b"
  using py_round_mono [of x "of_int b"] by simp

lemma py_round_nearest: "\<bar>of_int (py_round x) - x\<bar> \<le> 1 / 2"
proof -
  have "of_int \<lfloor>x\<rfloor> \<le> x" "x < of_int \<lfloor>x\<rfloor> + 1"
    by linarith+
  then show ?thesis
    by (auto simp add: py_round_def Let_def abs_le_iff)
qed

lemma clamp_byte_range: "0 \<le> clamp_byte v \<and> clamp_byte v \<le> 255"
  by (simp add: clamp_byte_def MIN_BYTE_def MAX_BYTE_def)

lemma clamp_byte_id: "0 \<le> v \<Longrightarrow> v \<le> 255 \<Longrightarrow> clamp_byte v = v"
  by (simp add: clamp_byte_def MIN_BYTE_def MAX_BYTE_def)

section \<open>The length floor\<close>

lemma scale_up_ge:
  assumes "0 \<le> c" "c \<le> 255" "0 < m" "m < t"
  shows "c \<le> min 255 (py_round (of_int c * (of_int t / of_int m)))"
proof -
  have "(1::rat) \<le> of_int t / of_int m"
    using assms by simp
  then have "(of_int c :: rat) * 1 \<le> of_int c * (of_int t / of_int m)"
    using assms(1) by (intro mult_left_mono) simp_all
  then have "c \<le> py_round (of_int c * (of_int t / of_int m))"
    by (intro py_round_ge) simp
  with assms(2) show ?thesis by simp
qed

lemma apply_length_floor_fn_cases:
  "apply_length_floor_fn (r, g, b) base_count cfg =
     (if \<not> apply_length_floor cfg \<or> base_count \<le> 0 \<or> max r (max g b) \<le> 0
         \<or> length_floor_target base_count \<le> max r (max g b)
      then (r, g, b)
      else (min 255 (py_round (of_int r * (of_int (length_floor_target base_count) / of_int (max r (max g b))))),
            min 255 (py_round (of_int g * (of_int (length_floor_target base_count) / of_int (max r (max g b))))),
            min 255 (py_round (of_int b * (of_int (length_floor_target base_count) / of_int (max r (max g b)))))))"
  unfolding apply_length_floor_fn_def Let_def by (simp only: split_conv if_cancel disj_assoc cong: if_cong) auto

text \<open>
  Claim C6. For every color with channels in \<open>[0, 255]\<close>, every base count and every
  configuration, no channel of the result of the length-floor adjustment is below the
  channel of its input.
\<close>

theorem length_floor_never_decreases:
  assumes "rgb_in_range (r, g, b)"
  shows "case apply_length_floor_fn (r, g, b) base_count cfg of
           (r', g', b') \<Rightarrow> r \<le> r' \<and> g \<le> g' \<and> b \<le> b'"
proof (cases "\<not> apply_length_floor cfg \<or> base_count \<le> 0 \<or> max r (max g b) \<le> 0
                \<or> length_floor_target base_count \<le> max r (max g b)")
  case True
  then show ?thesis
    by (simp only: apply_length_floor_fn_cases if_True split_conv order_refl simp_thms)
next
  case False
  define m where "m = max r (max g b)"
  define t where "t = length_floor_target base_count"
  from False have mt: "0 < m" "m < t"
    unfolding m_def t_def by linarith+
  from assms have rng: "0 \<le> r" "r \<le> 255" "0 \<le> g" "g \<le> 255" "0 \<le> b" "b \<le> 255"
    by (simp_all add: rgb_in_range_def)
  from False show ?thesis
    using scale_up_ge [OF rng(1,2) mt] scale_up_ge [OF rng(3,4) mt] scale_up_ge [OF rng(5,6) mt]
    by (simp only: apply_length_floor_fn_cases if_False split_conv m_def t_def simp_thms)
qed

theorem length_floor_never_decreases_witness:
  "rgb_in_range (0, 0, 128) \<and>
   apply_length_floor_fn (0, 0, 128) 2 default_config = (0, 0, 200) \<and>
   (case apply_length_floor_fn (0, 0, 128) 2 default_config of
      (r', g', b') \<Rightarrow> 0 \<le> r' \<and> 0 \<le> g' \<and> 128 \<le> b')"
proof -
  have h: "rgb_in_range (0, 0, 128)"
    by (simp add: rgb_in_range_def)
  have e: "apply_length_floor_fn (0, 0, 128) 2 default_config = (0, 0, 200)"
    by (simp add: apply_length_floor_fn_def length_floor_target_def LENGTH_FLOOR_def
        default_config_def py_round_def Let_def)
  show ?thesis
    using h e length_floor_never_decreases [OF h, of 2 default_config] by simp
qed

section \<open>Transliteration and the override resolver\<close>

lemma transliterate_loop_append:
  "transliterate_loop s output_chars = output_chars @ map replacement s"
  by (induction s arbitrary: output_chars) simp_all

lemma replacement_digraph: "replacement = digraph"
  by (rule ext) (simp add: replacement_def mapping_de_def digraph_def)

lemma transliterate_de_map: "transliterate_de s = concat (map digraph s)"
  by (simp add: transliterate_de_def transliterate_loop_append replacement_digraph)

lemma transliterate_capital_sharp_s: "transliterate_de [0x1E9E] = [0x1E9E]"
  by (simp add: transliterate_de_def replacement_def mapping_de_def)

lemma match_totals_Nil: "match_totals [] acc = acc"
  by (simp add: match_totals_def)

lemma match_totals_append: "match_totals (ms @ ns) acc = match_totals ns (match_totals ms acc)"
  by (simp add: match_totals_def add.assoc)

lemma base_weight_get: "dict_get OVERRIDE_SUFFIX_WEIGHTS BASE_WORD_SUFFIX_KEY = Inr (70 / 100)"
  by (simp add: dict_get_def OVERRIDE_SUFFIX_WEIGHTS_def BASE_WORD_SUFFIX_KEY_def lit_def)

lemma base_weight_map_of: "map_of OVERRIDE_SUFFIX_WEIGHTS BASE_WORD_SUFFIX_KEY = Some (70 / 100)"
  by (simp add: OVERRIDE_SUFFIX_WEIGHTS_def BASE_WORD_SUFFIX_KEY_def lit_def)

lemma add_match_known_key:
  assumes "map_of OVERRIDE_COLOR_RGB color_key \<noteq> None"
  shows "add_match color_key g acc = Inr (match_totals [(color_key, g)] acc)"
proof -
  from assms obtain r gr b where c: "map_of OVERRIDE_COLOR_RGB color_key = Some (r, gr, b)"
    by (metis not_None_eq prod_cases3)
  have w: "(case map_of OVERRIDE_SUFFIX_WEIGHTS
                  (case g of Some raw \<Rightarrow> py_lower_str raw | None \<Rightarrow> BASE_WORD_SUFFIX_KEY) of
              Some w \<Rightarrow> w | None \<Rightarrow> 70 / 100) = suffix_weight g"
    by (cases g) (simp_all add: suffix_weight_def base_weight_map_of)
  show ?thesis
    unfolding add_match_def Let_def base_weight_get sum.case w
    by (simp add: dict_get_def c match_totals_def target_rgb_def)
qed

lemma match_loop_known_key:
  assumes "map_of OVERRIDE_COLOR_RGB color_key \<noteq> None"
  shows "match_loop color_key gs acc = Inr (match_totals (map (\<lambda>g. (color_key, g)) gs) acc)"
proof (induction gs arbitrary: acc)
  case Nil
  show ?case by (simp add: match_totals_Nil)
next
  case (Cons g gs)
  have "match_loop color_key (g # gs) acc = match_loop color_key gs (match_totals [(color_key, g)] acc)"
    by (simp add: add_match_known_key [OF assms])
  also have "\<dots> = Inr (match_totals (map (\<lambda>g. (color_key, g)) gs) (match_totals [(color_key, g)] acc))"
    by (rule Cons.IH)
  also have "\<dots> = Inr (match_totals ([(color_key, g)] @ map (\<lambda>g. (color_key, g)) gs) acc)"
    by (simp only: match_totals_append)
  finally show ?case by simp
qed

lemma pattern_loop_known_keys:
  assumes "list_all (\<lambda>p. map_of OVERRIDE_COLOR_RGB (fst p) \<noteq> None) ps"
  shows "pattern_loop W ps text_trans acc = Inr (match_totals (matches_of W ps text_trans) acc)"
  using assms
proof (induction ps arbitrary: acc)
  case Nil
  show ?case by (simp add: matches_of_def match_totals_Nil)
next
  case (Cons p ps)
  obtain color_key stem where p: "p = (color_key, stem)"
    by (cases p)
  from Cons.prems p have k: "map_of OVERRIDE_COLOR_RGB color_key \<noteq> None"
    and rest: "list_all (\<lambda>p. map_of OVERRIDE_COLOR_RGB (fst p) \<noteq> None) ps"
    by simp_all
  have m: "matches_of W (p # ps) text_trans =
        map (\<lambda>g. (color_key, g)) (finditer W stem None 0 text_trans) @ matches_of W ps text_trans"
    by (simp add: matches_of_def p)
  have "pattern_loop W (p # ps) text_trans acc =
        pattern_loop W ps text_trans
          (match_totals (map (\<lambda>g. (color_key, g)) (finditer W stem None 0 text_trans)) acc)"
    by (simp add: p match_loop_known_key [OF k])
  also have "\<dots> = Inr (match_totals (matches_of W ps text_trans)
          (match_totals (map (\<lambda>g. (color_key, g)) (finditer W stem None 0 text_trans)) acc))"
    by (rule Cons.IH [OF rest])
  finally show ?case
    by (simp only: m match_totals_append)
qed

lemma color_patterns_known_keys:
  "list_all (\<lambda>p. map_of OVERRIDE_COLOR_RGB (fst p) \<noteq> None) COLOR_PATTERNS"
  by (simp add: COLOR_PATTERNS_def compile_color_patterns_def OVERRIDE_COLOR_STEMS_def
      OVERRIDE_COLOR_RGB_def)

lemma find_override_mean:
  "find_override_and_weight W text_trans = Inr (mean_override W text_trans)"
proof -
  let ?ms = "all_matches W text_trans"
  let ?z = "\<lparr>sum_red = 0, sum_green = 0, sum_blue = 0, sum_weight = 0, match_count = 0\<rparr>"
  have loop: "pattern_loop W COLOR_PATTERNS text_trans ?z = Inr (match_totals ?ms ?z)"
    using pattern_loop_known_keys [OF color_patterns_known_keys]
    by (simp add: matches_of_def all_matches_def)
  have clamp: "(if x < 0 then 0 else if x > 70 / 100 then 70 / 100 else x) = max 0 (min (70 / 100) x)"
    for x :: rat by (simp add: max_def min_def)
  show ?thesis
  proof (cases "?ms = []")
    case True
    then show ?thesis
      unfolding find_override_and_weight_def loop
      by (simp add: mean_override_def match_totals_def)
  next
    case False
    then have n: "match_count (match_totals ?ms ?z) \<noteq> 0"
      by (simp add: match_totals_def)
    show ?thesis
      unfolding find_override_and_weight_def loop sum.case base_weight_get Let_def
      using False n
      by (simp add: mean_override_def match_totals_def mean_def clamp Let_def)
  qed
qed

section \<open>Channel ranges\<close>

lemma sum_list_bounds:
  fixes xs :: "rat list"
  assumes "\<forall>x\<in>set xs. a \<le> x \<and> x \<le> b"
  shows "of_nat (length xs) * a \<le> sum_list xs \<and> sum_list xs \<le> of_nat (length xs) * b"
  using assms by (induction xs) (auto simp add: algebra_simps)

lemma mean_bounds:
  assumes "xs \<noteq> []" "\<forall>x\<in>set xs. a \<le> x \<and> x \<le> b"
  shows "a \<le> mean xs \<and> mean xs \<le> b"
proof -
  have n: "(0::rat) < of_nat (length xs)"
    using assms(1) by simp
  from sum_list_bounds [OF assms(2)] n show ?thesis
    by (simp add: mean_def pos_le_divide_eq pos_divide_le_eq mult.commute)
qed

lemma override_table_in_range: "list_all (\<lambda>p. rgb_in_range (snd p)) OVERRIDE_COLOR_RGB"
  by (simp add: OVERRIDE_COLOR_RGB_def rgb_in_range_def)

lemma target_rgb_in_range: "rgb_in_range (target_rgb color_key)"
proof (cases "map_of OVERRIDE_COLOR_RGB color_key")
  case None
  then show ?thesis by (simp add: target_rgb_def rgb_in_range_def)
next
  case (Some c)
  then have "(color_key, c) \<in> set OVERRIDE_COLOR_RGB"
    by (rule map_of_SomeD)
  with override_table_in_range have "rgb_in_range c"
    by (auto simp add: list_all_iff)
  with Some show ?thesis by (simp add: target_rgb_def)
qed

lemma rgb_in_range_sel:
  "rgb_in_range c \<longleftrightarrow>
     0 \<le> fst c \<and> fst c \<le> 255 \<and> 0 \<le> fst (snd c) \<and> fst (snd c) \<le> 255 \<and>
     0 \<le> snd (snd c) \<and> snd (snd c) \<le> 255"
  by (cases c) (simp add: rgb_in_range_def)

lemma py_round_mean_in_range:
  assumes "ms \<noteq> []" "\<forall>m\<in>set ms. 0 \<le> f m \<and> f m \<le> (255::int)"
  shows "0 \<le> py_round (mean (map (\<lambda>m. of_int (f m)) ms))
       \<and> py_round (mean (map (\<lambda>m. of_int (f m)) ms)) \<le> 255"
proof -
  have "\<forall>x\<in>set (map (\<lambda>m. rat_of_int (f m)) ms). of_int 0 \<le> x \<and> x \<le> of_int 255"
    using assms(2) by auto
  with assms(1) have "of_int 0 \<le> mean (map (\<lambda>m. of_int (f m)) ms)
      \<and> mean (map (\<lambda>m. of_int (f m)) ms) \<le> of_int 255"
    by (intro mean_bounds) simp_all
  then show ?thesis
    using py_round_ge py_round_le by blast
qed

lemma mean_override_range:
  assumes "mean_override W text_trans = Some (c, w)"
  shows "rgb_in_range c \<and> 0 \<le> w \<and> w \<le> 70 / 100"
proof -
  let ?ms = "all_matches W text_trans"
  from assms have ne: "?ms \<noteq> []"
    by (auto simp add: mean_override_def Let_def split: if_splits)
  have t: "rgb_in_range (target_rgb (fst m))" for m :: "string \<times> ustr option"
    by (rule target_rgb_in_range)
  have r: "\<forall>m\<in>set ?ms. 0 \<le> fst (target_rgb (fst m)) \<and> fst (target_rgb (fst m)) \<le> 255"
    and g: "\<forall>m\<in>set ?ms. 0 \<le> fst (snd (target_rgb (fst m))) \<and> fst (snd (target_rgb (fst m))) \<le> 255"
    and b: "\<forall>m\<in>set ?ms. 0 \<le> snd (snd (target_rgb (fst m))) \<and> snd (snd (target_rgb (fst m))) \<le> 255"
    using t by (simp_all add: rgb_in_range_sel)
  from assms ne have c: "c = (py_round (mean (map (\<lambda>m. of_int (fst (target_rgb (fst m)))) ?ms)),
                     py_round (mean (map (\<lambda>m. of_int (fst (snd (target_rgb (fst m))))) ?ms)),
                     py_round (mean (map (\<lambda>m. of_int (snd (snd (target_rgb (fst m))))) ?ms)))"
    and w: "w = max 0 (min (70 / 100) (mean (map (\<lambda>m. suffix_weight (snd m)) ?ms)))"
    by (simp_all add: mean_override_def Let_def)
  have "rgb_in_range c"
    unfolding c rgb_in_range_def split_conv
    using py_round_mean_in_range [OF ne r] py_round_mean_in_range [OF ne g]
      py_round_mean_in_range [OF ne b] by blast
  moreover have "0 \<le> w \<and> w \<le> 70 / 100"
    unfolding w by simp
  ultimately show ?thesis by simp
qed

lemma blend_channel_in_range:
  assumes "0 \<le> w" "w \<le> 70 / 100" "0 \<le> a" "a \<le> 255" "0 \<le> b" "b \<le> (255::int)"
  shows "0 \<le> py_round ((1 - w) * of_int a + w * of_int b)
       \<and> py_round ((1 - w) * of_int a + w * of_int b) \<le> 255"
proof -
  have w1: "0 \<le> 1 - w" using assms(2) by simp
  have lo: "of_int 0 \<le> (1 - w) * of_int a + w * of_int b"
    using assms w1 by simp
  have a255: "(of_int a :: rat) \<le> 255" and b255: "(of_int b :: rat) \<le> 255"
    using assms by simp_all
  have "(1 - w) * of_int a \<le> (1 - w) * 255" "w * of_int b \<le> w * 255"
    using mult_left_mono [OF a255 w1] mult_left_mono [OF b255 assms(1)] by blast+
  then have "(1 - w) * of_int a + w * of_int b \<le> (1 - w) * 255 + w * 255"
    by (rule add_mono)
  also have "\<dots> = of_int 255"
    by (simp add: algebra_simps)
  finally have hi: "(1 - w) * of_int a + w * of_int b \<le> of_int 255" .
  from lo hi show ?thesis
    using py_round_ge py_round_le by blast
qed

lemma blend_override_in_range:
  assumes "rgb_in_range c"
  shows "\<exists>c'. blend_override W c text_trans = Inr c' \<and> rgb_in_range c'"
proof (cases "mean_override W text_trans")
  case None
  with assms show ?thesis
    by (simp add: blend_override_def find_override_mean)
next
  case (Some ov)
  obtain o_rgb w where ov: "ov = (o_rgb, w)" by (cases ov)
  obtain r g b where c: "c = (r, g, b)" by (cases c)
  obtain r' g' b' where o: "o_rgb = (r', g', b')" by (cases o_rgb)
  from mean_override_range [of W text_trans o_rgb w] Some ov
  have rng: "rgb_in_range o_rgb" "0 \<le> w" "w \<le> 70 / 100"
    by simp_all
  from assms c have cr: "0 \<le> r" "r \<le> 255" "0 \<le> g" "g \<le> 255" "0 \<le> b" "b \<le> 255"
    by (simp_all add: rgb_in_range_def)
  from rng(1) o have orr: "0 \<le> r'" "r' \<le> 255" "0 \<le> g'" "g' \<le> 255" "0 \<le> b'" "b' \<le> 255"
    by (simp_all add: rgb_in_range_def)
  have "blend_override W c text_trans =
      Inr (py_round ((1 - w) * of_int r + w * of_int r'),
           py_round ((1 - w) * of_int g + w * of_int g'),
           py_round ((1 - w) * of_int b + w * of_int b'))"
    by (simp add: blend_override_def find_override_mean Some ov c o)
  moreover have "rgb_in_range (py_round ((1 - w) * of_int r + w * of_int r'),
           py_round ((1 - w) * of_int g + w * of_int g'),
           py_round ((1 - w) * of_int b + w * of_int b'))"
    unfolding rgb_in_range_def split_conv
    using blend_channel_in_range [OF rng(2,3) cr(1,2) orr(1,2)]
      blend_channel_in_range [OF rng(2,3) cr(3,4) orr(3,4)]
      blend_channel_in_range [OF rng(2,3) cr(5,6) orr(5,6)] by blast
  ultimately show ?thesis by simp
qed

lemma to_byte_0_1_range: "0 \<le> to_byte_0_1 v \<and> to_byte_0_1 v \<le> 255"
proof -
  define c where "c = (if v < 0 then 0 else if v > 1 then 1 else v)"
  have "0 \<le> c" "c \<le> 1" by (simp_all add: c_def)
  then have "of_int 0 \<le> c * 255" "c * 255 \<le> of_int 255" by simp_all
  then have "0 \<le> py_round (c * 255) \<and> py_round (c * 255) \<le> 255"
    using py_round_ge py_round_le by blast
  then show ?thesis by (simp add: to_byte_0_1_def c_def Let_def)
qed

lemma compute_rgb_freq_in_range: "rgb_in_range (fst (compute_rgb_freq text_trans denom))"
  by (simp add: compute_rgb_freq_def Let_def rgb_in_range_def to_byte_0_1_range)

lemma scale_in_range:
  assumes "0 \<le> c" "0 < m" "0 < t"
  shows "0 \<le> min 255 (py_round (of_int c * (of_int t / of_int m)))
       \<and> min 255 (py_round (of_int c * (of_int t / of_int m))) \<le> 255"
proof -
  have "of_int 0 \<le> (of_int c :: rat) * (of_int t / of_int m)"
    using assms by simp
  then have "0 \<le> py_round (of_int c * (of_int t / of_int m))"
    by (rule py_round_ge)
  then show ?thesis by simp
qed

lemma apply_length_floor_in_range:
  assumes "rgb_in_range c"
  shows "rgb_in_range (apply_length_floor_fn c base_count cfg)"
proof -
  obtain r g b where c: "c = (r, g, b)" by (cases c)
  from assms c have rng: "0 \<le> r" "0 \<le> g" "0 \<le> b"
    by (simp_all add: rgb_in_range_def)
  show ?thesis
  proof (cases "\<not> apply_length_floor cfg \<or> base_count \<le> 0 \<or> max r (max g b) \<le> 0
                \<or> length_floor_target base_count \<le> max r (max g b)")
    case True
    with assms show ?thesis
      by (simp only: c apply_length_floor_fn_cases if_True)
  next
    case False
    then have mt: "0 < max r (max g b)" "0 < length_floor_target base_count"
      by linarith+
    from False show ?thesis
      using scale_in_range [OF rng(1) mt] scale_in_range [OF rng(2) mt] scale_in_range [OF rng(3) mt]
      by (simp only: c apply_length_floor_fn_cases if_False rgb_in_range_def split_conv simp_thms)
  qed
qed

lemma apply_brightness_in_range: "rgb_in_range (apply_brightness c m)"
  by (cases c) (simp add: apply_brightness_def rgb_in_range_def clamp_byte_range Let_def)

lemma apply_saturation_in_range: "rgb_in_range (apply_saturation c m)"
  by (cases c) (simp add: apply_saturation_def rgb_in_range_def clamp_byte_range Let_def)

lemma apply_punctuation_in_range:
  assumes "rgb_in_range c"
  shows "rgb_in_range (apply_punctuation c original_text cfg)"
  using assms by (simp add: apply_punctuation_def Let_def apply_brightness_in_range)

section \<open>Anchor mode\<close>

lemma letter_index_cases:
  "letter_index c =
     (if c = 0x130 then Inl TypeError
      else if lowers_to_letter c then Inr (Some (int (sre_lower c) - 0x61))
      else Inr None)"
  by (auto simp add: letter_index_def py_lower_def py_ord_def lit_def lowers_to_letter_def
      sre_lower_def ascii_letter_def ascii_upper_def ascii_lower_def Let_def)

lemma nearest_anchor_keys_distinct: "distinct (nearest_anchor_keys idx)"
  by (simp add: nearest_anchor_keys_def Let_def)

lemma nearest_anchor_keys_nonempty: "nearest_anchor_keys idx \<noteq> []"
  by (simp add: nearest_anchor_keys_def Let_def min_def)

lemma nearest_anchor_keys_subset:
  "set (nearest_anchor_keys idx) \<subseteq> {CHR ''R'', CHR ''G'', CHR ''B''}"
  by (auto simp add: nearest_anchor_keys_def Let_def)

lemma fold_share:
  assumes "distinct ks"
  shows "fold (\<lambda>key cnt. cnt(key := cnt key + sh)) ks counts =
           (\<lambda>k. counts k + (if k \<in> set ks then sh else (0::rat)))"
  using assms
proof (induction ks arbitrary: counts)
  case Nil
  show ?case by simp
next
  case (Cons a ks)
  then have a: "a \<notin> set ks" and d: "distinct ks" by simp_all
  let ?f = "\<lambda>key cnt. cnt(key := cnt key + sh)"
  have "fold ?f (a # ks) counts = fold ?f ks (counts(a := counts a + sh))"
    by simp
  also have "\<dots> = (\<lambda>k. (counts(a := counts a + sh)) k + (if k \<in> set ks then sh else 0))"
    by (rule Cons.IH [OF d])
  also have "\<dots> = (\<lambda>k. counts k + (if k \<in> set (a # ks) then sh else 0))"
    using a by (auto simp add: fun_eq_iff)
  finally show ?case .
qed

lemma anchor_loop_sums:
  assumes "0x130 \<notin> set s"
  shows "anchor_loop s counts = Inr (\<lambda>key. counts key + anchor_sum key s)"
  using assms
proof (induction s arbitrary: counts)
  case Nil
  show ?case by (simp add: anchor_sum_def)
next
  case (Cons ch rest)
  then have ch: "ch \<noteq> 0x130" and rest: "0x130 \<notin> set rest"
    by auto
  show ?case
  proof (cases "lowers_to_letter ch")
    case False
    with ch have "anchor_loop (ch # rest) counts = anchor_loop rest counts"
      by (simp add: letter_index_cases)
    with False show ?thesis
      by (simp add: Cons.IH [OF rest] anchor_sum_def anchor_share_def)
  next
    case True
    let ?ws = "nearest_anchor_keys (int (sre_lower ch) - 0x61)"
    let ?sh = "1 / of_nat (length ?ws) :: rat"
    from ch True have "anchor_loop (ch # rest) counts =
        anchor_loop rest (fold (\<lambda>key cnt. cnt(key := cnt key + ?sh)) ?ws counts)"
      by (simp add: letter_index_cases Let_def)
    also have "\<dots> = anchor_loop rest (\<lambda>k. counts k + (if k \<in> set ?ws then ?sh else 0))"
      by (simp only: fold_share [OF nearest_anchor_keys_distinct])
    also have "\<dots> = Inr (\<lambda>key. counts key + (if key \<in> set ?ws then ?sh else 0) + anchor_sum key rest)"
      by (rule Cons.IH [OF rest])
    also have "(\<lambda>key. counts key + (if key \<in> set ?ws then ?sh else 0) + anchor_sum key rest) =
        (\<lambda>key. counts key + anchor_sum key (ch # rest))"
      using True by (auto simp add: fun_eq_iff anchor_sum_def anchor_share_def Let_def)
    finally show ?thesis .
  qed
qed

lemma anchor_loop_type_error:
  assumes "0x130 \<in> set s"
  shows "anchor_loop s counts = Inl TypeError"
  using assms
proof (induction s arbitrary: counts)
  case Nil
  then show ?case by simp
next
  case (Cons ch rest)
  show ?case
  proof (cases "ch = 0x130")
    case True
    then show ?thesis by (simp add: letter_index_cases)
  next
    case False
    with Cons.prems have "0x130 \<in> set rest" by simp
    then have "\<And>counts. anchor_loop rest counts = Inl TypeError"
      by (rule Cons.IH)
    with False show ?thesis
      by (simp add: letter_index_cases Let_def)
  qed
qed

lemma anchor_share_nonneg: "0 \<le> anchor_share key c"
  by (simp add: anchor_share_def Let_def)

lemma anchor_sum_nonneg: "0 \<le> anchor_sum key s"
  unfolding anchor_sum_def by (rule sum_list_nonneg) (auto simp add: anchor_share_nonneg)

lemma anchor_sum_no_letters:
  assumes "no_letters s"
  shows "anchor_sum key s = 0"
proof -
  from assms have "\<forall>c\<in>set s. \<not> lowers_to_letter c"
    by (simp add: no_letters_def filter_empty_conv)
  then have "sum_list (map (anchor_share key) s) = 0"
    by (induction s) (simp_all add: anchor_share_def)
  then show ?thesis
    by (simp only: anchor_sum_def)
qed

lemma anchor_sum_member_le:
  assumes "c \<in> set s"
  shows "anchor_share key c \<le> anchor_sum key s"
  using assms
proof (induction s)
  case Nil
  then show ?case by simp
next
  case (Cons a s)
  have "0 \<le> anchor_sum key s" "0 \<le> anchor_share key a"
    by (rule anchor_sum_nonneg, rule anchor_share_nonneg)
  with Cons show ?case
    by (auto simp add: anchor_sum_def)
qed

lemma anchor_max_positive:
  assumes "\<not> no_letters s"
  shows "0 < max (anchor_sum CHR ''R'' s) (max (anchor_sum CHR ''G'' s) (anchor_sum CHR ''B'' s))"
proof -
  from assms obtain c where c: "c \<in> set s" "lowers_to_letter c"
    by (auto simp add: no_letters_def filter_empty_conv)
  let ?ws = "nearest_anchor_keys (int (sre_lower c) - 0x61)"
  obtain k where k: "k \<in> set ?ws"
    using nearest_anchor_keys_nonempty [of "int (sre_lower c) - 0x61"] by (cases ?ws) auto
  have "0 < length ?ws"
    using nearest_anchor_keys_nonempty by simp
  with c(2) k have "0 < anchor_share k c"
    by (simp add: anchor_share_def Let_def)
  with anchor_sum_member_le [OF c(1), of k] have pos: "0 < anchor_sum k s"
    by linarith
  from k nearest_anchor_keys_subset have "k = CHR ''R'' \<or> k = CHR ''G'' \<or> k = CHR ''B''"
    by blast
  with pos show ?thesis
    by (auto simp add: less_max_iff_disj)
qed

lemma scaled_by_product:
  assumes "0 < m"
  shows "py_round (x * (255 / m)) = scaled_channel m x"
  using assms by (simp add: scaled_channel_def)

lemma compute_rgb_anchor_scaled:
  assumes "0x130 \<notin> set s"
  shows "compute_rgb_anchor s = Inr (if no_letters s then (0, 0, 0) else scaled_anchor_rgb s)"
proof (cases "no_letters s")
  case True
  then show ?thesis
    by (simp add: compute_rgb_anchor_def anchor_loop_sums [OF assms] anchor_sum_no_letters)
next
  case False
  let ?m = "max (anchor_sum CHR ''R'' s) (max (anchor_sum CHR ''G'' s) (anchor_sum CHR ''B'' s))"
  from anchor_max_positive [OF False] have m: "0 < ?m" .
  then have "?m \<noteq> 0" by simp
  with False show ?thesis
    unfolding compute_rgb_anchor_def anchor_loop_sums [OF assms] sum.case Let_def
    by (simp only: add_0 if_False scaled_by_product [OF m] scaled_anchor_rgb_def Let_def)
qed

section \<open>The whole computation\<close>

lemma rgb_to_hsv_returns:
  assumes "0 \<le> r" "0 \<le> g" "0 \<le> b"
  shows "\<exists>t. rgb_to_hsv r g b = Inr t"
proof (cases "min r (min g b) = max r (max g b)")
  case True
  then show ?thesis by (simp add: rgb_to_hsv_def Let_def)
next
  case False
  with assms have "max r (max g b) \<noteq> 0"
    by (auto simp add: max_def min_def split: if_splits)
  with False show ?thesis by (simp add: rgb_to_hsv_def Let_def)
qed

lemma approx_color_name_returns:
  assumes "rgb_in_range (r, g, b)"
  shows "\<exists>n. approx_color_name r g b = Inr n"
proof -
  from assms have "0 \<le> (of_int r :: rat) / of_int MAX_BYTE" "0 \<le> (of_int g :: rat) / of_int MAX_BYTE"
    "0 \<le> (of_int b :: rat) / of_int MAX_BYTE"
    by (simp_all add: rgb_in_range_def MAX_BYTE_def)
  from rgb_to_hsv_returns [OF this] obtain h s v where
    "rgb_to_hsv (of_int r / of_int MAX_BYTE) (of_int g / of_int MAX_BYTE) (of_int b / of_int MAX_BYTE)
       = Inr (h, s, v)"
    by (metis prod_cases3)
  then show ?thesis
    by (simp add: approx_color_name_def Let_def split: option.split)
qed

lemma resolve_display_name_returns:
  assumes "rgb_in_range c"
  shows "\<exists>n. resolve_display_name pizza_lookup hex_code c = Inr n"
proof -
  obtain r g b where c: "c = (r, g, b)" by (cases c)
  from approx_color_name_returns [of r g b] assms c
  obtain n where "approx_color_name r g b = Inr n" by auto
  then show ?thesis
    by (simp add: resolve_display_name_def c split: lookup_outcome.split)
qed

lemma digraph_keeps_dotted_I: "0x130 \<in> set (digraph ch) \<longleftrightarrow> ch = 0x130"
  by (simp add: digraph_def lit_def)

lemma transliterate_keeps_dotted_I: "0x130 \<in> set (transliterate_de s) \<longleftrightarrow> 0x130 \<in> set s"
  by (induction s) (simp_all add: transliterate_de_map digraph_keeps_dotted_I)

lemma scaled_channel_in_range:
  assumes "0 < m" "0 \<le> x" "x \<le> m"
  shows "0 \<le> scaled_channel m x \<and> scaled_channel m x \<le> 255"
proof -
  have "of_int 0 \<le> x * 255 / m"
    using assms by simp
  moreover have "x * 255 / m \<le> of_int 255"
    using assms by (simp add: pos_divide_le_eq)
  ultimately have "0 \<le> py_round (x * 255 / m) \<and> py_round (x * 255 / m) \<le> 255"
    using py_round_ge py_round_le by blast
  then show ?thesis
    by (simp add: scaled_channel_def)
qed

lemma scaled_anchor_rgb_in_range:
  assumes "\<not> no_letters s"
  shows "rgb_in_range (scaled_anchor_rgb s)"
proof -
  let ?m = "max (anchor_sum CHR ''R'' s) (max (anchor_sum CHR ''G'' s) (anchor_sum CHR ''B'' s))"
  have m: "0 < ?m" by (rule anchor_max_positive [OF assms])
  have "anchor_sum CHR ''R'' s \<le> ?m" "anchor_sum CHR ''G'' s \<le> ?m" "anchor_sum CHR ''B'' s \<le> ?m"
    by simp_all
  then show ?thesis
    unfolding scaled_anchor_rgb_def Let_def rgb_in_range_def split_conv
    using scaled_channel_in_range [OF m anchor_sum_nonneg] by blast
qed

lemma compute_rgb_anchor_in_range:
  assumes "compute_rgb_anchor s = Inr c"
  shows "rgb_in_range c"
proof (cases "0x130 \<in> set s")
  case True
  with assms show ?thesis
    by (simp add: compute_rgb_anchor_def anchor_loop_type_error)
next
  case False
  from assms compute_rgb_anchor_scaled [OF False]
  have "c = (if no_letters s then (0, 0, 0) else scaled_anchor_rgb s)"
    by simp
  then show ?thesis
    using scaled_anchor_rgb_in_range [of s] by (simp add: rgb_in_range_def)
qed

lemma base_rgb_in_range:
  assumes "base_rgb text_trans cfg = Inr c"
  shows "rgb_in_range c"
proof (cases "mode cfg = FREQ")
  case True
  with assms have "c = apply_length_floor_fn (fst (compute_rgb_freq text_trans (denominator cfg)))
      (snd (compute_rgb_freq text_trans (denominator cfg))) cfg"
    by (simp add: base_rgb_def Let_def)
  then show ?thesis
    by (simp add: apply_length_floor_in_range compute_rgb_freq_in_range)
next
  case False
  with assms show ?thesis
    by (simp add: base_rgb_def compute_rgb_anchor_in_range)
qed

lemma base_rgb_returns:
  assumes "mode cfg = FREQ \<or> 0x130 \<notin> set text_trans"
  shows "\<exists>c. base_rgb text_trans cfg = Inr c"
proof (cases "mode cfg = FREQ")
  case True
  then have "base_rgb text_trans cfg =
      Inr (apply_length_floor_fn (fst (compute_rgb_freq text_trans (denominator cfg)))
             (snd (compute_rgb_freq text_trans (denominator cfg))) cfg)"
    by (simp add: base_rgb_def Let_def)
  then show ?thesis by (rule exI)
next
  case False
  with assms have "0x130 \<notin> set text_trans" by simp
  from compute_rgb_anchor_scaled [OF this] False
  have "base_rgb text_trans cfg =
      Inr (if no_letters text_trans then (0, 0, 0) else scaled_anchor_rgb text_trans)"
    by (simp only: base_rgb_def if_False)
  then show ?thesis by (rule exI)
qed

lemma with_override_in_range:
  assumes "with_override W original_text cfg = Inr c"
  shows "rgb_in_range c"
proof (cases "base_rgb (transliterate_de original_text) cfg")
  case (Inl e)
  with assms show ?thesis by (simp add: with_override_def Let_def)
next
  case (Inr c0)
  then have "rgb_in_range c0" by (rule base_rgb_in_range)
  from blend_override_in_range [OF this, of W "transliterate_de original_text"] assms Inr
  show ?thesis by (auto simp add: with_override_def Let_def)
qed

lemma with_override_returns:
  assumes "mode cfg = FREQ \<or> 0x130 \<notin> set original_text"
  shows "\<exists>c. with_override W original_text cfg = Inr c"
proof -
  from assms have "mode cfg = FREQ \<or> 0x130 \<notin> set (transliterate_de original_text)"
    by (simp add: transliterate_keeps_dotted_I)
  from base_rgb_returns [OF this] obtain c0 where c0: "base_rgb (transliterate_de original_text) cfg = Inr c0"
    by blast
  then have "rgb_in_range c0" by (rule base_rgb_in_range)
  from blend_override_in_range [OF this, of W "transliterate_de original_text"] c0
  show ?thesis by (auto simp add: with_override_def Let_def)
qed

lemma compute_color_unfold:
  assumes "with_override W original_text cfg = Inr c"
  shows "\<exists>n. compute_color W pizza_lookup original_text cfg =
           Inr \<lparr>rgb = apply_punctuation c original_text cfg,
                hex = (case apply_punctuation c original_text cfg of (r, g, b) \<Rightarrow> rgb_to_hex r g b),
                name = n\<rparr>"
proof -
  have "rgb_in_range (apply_punctuation c original_text cfg)"
    using with_override_in_range [OF assms] by (rule apply_punctuation_in_range)
  from resolve_display_name_returns [OF this] obtain n where
    "resolve_display_name pizza_lookup
       (case apply_punctuation c original_text cfg of (r, g, b) \<Rightarrow> rgb_to_hex r g b)
       (apply_punctuation c original_text cfg) = Inr n"
    by blast
  with assms show ?thesis
    by (simp add: compute_color_def Let_def)
qed

lemma compute_color_result:
  assumes "compute_color W pizza_lookup original_text cfg = Inr res"
  shows "\<exists>c. with_override W original_text cfg = Inr c
           \<and> rgb res = apply_punctuation c original_text cfg
           \<and> hex res = (case rgb res of (r, g, b) \<Rightarrow> rgb_to_hex r g b)
           \<and> rgb_in_range (rgb res)"
proof (cases "with_override W original_text cfg")
  case (Inl e)
  with assms show ?thesis by (simp add: compute_color_def)
next
  case (Inr c)
  from compute_color_unfold [OF Inr, of pizza_lookup] assms obtain n where
    "res = \<lparr>rgb = apply_punctuation c original_text cfg,
                hex = (case apply_punctuation c original_text cfg of (r, g, b) \<Rightarrow> rgb_to_hex r g b),
                name = n\<rparr>"
    by auto
  then show ?thesis
    using Inr apply_punctuation_in_range [OF with_override_in_range [OF Inr]] by simp
qed

lemma compute_color_returns:
  assumes "mode cfg = FREQ \<or> 0x130 \<notin> set original_text"
  shows "\<exists>res. compute_color W pizza_lookup original_text cfg = Inr res \<and> rgb_in_range (rgb res)"
proof -
  from with_override_returns [OF assms] obtain c where c: "with_override W original_text cfg = Inr c"
    by blast
  from compute_color_unfold [OF c] obtain res where
    r: "compute_color W pizza_lookup original_text cfg = Inr res"
    by blast
  from compute_color_result [OF r] r show ?thesis by blast
qed

lemma compute_color_type_error:
  assumes "mode cfg = ANCHOR" "0x130 \<in> set original_text"
  shows "compute_color W pizza_lookup original_text cfg = Inl TypeError"
proof -
  from assms(2) have "0x130 \<in> set (transliterate_de original_text)"
    by (simp add: transliterate_keeps_dotted_I)
  then have "compute_rgb_anchor (transliterate_de original_text) = Inl TypeError"
    by (simp add: compute_rgb_anchor_def anchor_loop_type_error)
  with assms(1) show ?thesis
    by (simp add: compute_color_def with_override_def base_rgb_def Let_def)
qed

section \<open>The punctuation stage on two inputs\<close>

lemma apply_punctuation_stages:
  assumes "punctuation_mods cfg"
    and "punctuation_multipliers t = (bm, sm)"
    and "apply_saturation c sm = c1"
    and "apply_brightness c1 bm = c2"
    and "luminance_255 c = l0"
    and "luminance_255 c2 = l1"
  shows "apply_punctuation c t cfg =
     (if bm < 1 \<and> l1 > l0 \<and> l1 > 0 then apply_brightness c2 (l0 / l1)
      else if bm > 1 \<and> l0 > l1 \<and> l1 > 0 then apply_brightness c2 (l0 / l1)
      else c2)"
  using assms by (simp add: apply_punctuation_def Let_def)

lemmas color_defs = apply_saturation_def apply_brightness_def clamp_byte_def MIN_BYTE_def
  MAX_BYTE_def py_round_def luminance_255_def Let_def

lemmas punct_defs = punctuation_multipliers_def punctuation_score_def py_count_def PUNCT_def
  py_rstrip_def endswith_def py_isspace_def lit_def Let_def

lemma question_b_override: "with_override W (lit ''b?'') default_config = Inr (0, 0, 200)"
proof -
  have t: "transliterate_de (lit ''b?'') = lit ''b?''"
    by (simp add: transliterate_de_def replacement_def mapping_de_def lit_def)
  have f: "compute_rgb_freq (lit ''b?'') VISIBLE = ((0, 0, 128), 2)"
    by (simp add: compute_rgb_freq_def letters_only_def visible_len_def count_in_def
        to_byte_0_1_def py_round_def lib_defs Let_def)
  have l: "apply_length_floor_fn (0, 0, 128) 2 default_config = (0, 0, 200)"
    by (simp add: apply_length_floor_fn_def length_floor_target_def LENGTH_FLOOR_def
        default_config_def py_round_def Let_def)
  have "all_matches W (lit ''b?'') = []"
    by (simp add: all_matches_def re_defs lib_defs Let_def)
  then have o: "find_override_and_weight W (lit ''b?'') = Inr None"
    by (simp add: find_override_mean mean_override_def)
  have "base_rgb (lit ''b?'') default_config = Inr (0, 0, 200)"
    using f l by (simp add: base_rgb_def default_config_def)
  then show ?thesis
    by (simp add: with_override_def t blend_override_def o)
qed

lemma question_b_punctuation:
  "punctuation_multipliers (lit ''b?'') = (7 / 10, 8 / 10)"
  "apply_punctuation (0, 0, 200) (lit ''b?'') default_config = (8, 8, 102)"
proof -
  show m: "punctuation_multipliers (lit ''b?'') = (7 / 10, 8 / 10)"
    by (simp add: punct_defs)
  have s: "apply_saturation (0, 0, 200) (8 / 10) = (13, 13, 173)"
    by (simp add: color_defs)
  have b: "apply_brightness (13, 13, 173) (7 / 10) = (9, 9, 121)"
    by (simp add: color_defs)
  have l0: "luminance_255 (0, 0, 200) = 361 / 25"
    by (simp add: luminance_255_def)
  have l1: "luminance_255 (9, 9, 121) = 10679 / 625"
    by (simp add: luminance_255_def)
  have c: "apply_brightness (9, 9, 121) (361 / 25 / (10679 / 625)) = (8, 8, 102)"
    by (simp add: color_defs)
  have p: "punctuation_mods default_config"
    by (simp add: default_config_def)
  show "apply_punctuation (0, 0, 200) (lit ''b?'') default_config = (8, 8, 102)"
    unfolding apply_punctuation_stages [OF p m s b l0 l1] using c by simp
qed

lemma exclamation_blau_override:
  "with_override word_latin1 (lit ''blau!'') (default_config\<lparr>mode := ANCHOR\<rparr>) = Inr (38, 38, 255)"
proof -
  have t: "transliterate_de (lit ''blau!'') = lit ''blau!''"
    by (simp add: transliterate_de_def replacement_def mapping_de_def lit_def)
  have n: "\<not> no_letters (lit ''blau!'')"
    by (simp add: no_letters_def lowers_to_letter_def lib_defs)
  have sums: "anchor_sum CHR ''R'' (lit ''blau!'') = 1" "anchor_sum CHR ''G'' (lit ''blau!'') = 1"
    "anchor_sum CHR ''B'' (lit ''blau!'') = 2"
    by (simp_all add: anchor_sum_def anchor_share_def lowers_to_letter_def sre_lower_def
        nearest_anchor_keys_def circular_distance_def ANCHOR_cfg_def lib_defs Let_def)
  have "0x130 \<notin> set (lit ''blau!'')"
    by (simp add: lit_def)
  from compute_rgb_anchor_scaled [OF this] n
  have a: "compute_rgb_anchor (lit ''blau!'') = Inr (128, 128, 255)"
    by (simp add: scaled_anchor_rgb_def sums scaled_channel_def py_round_def Let_def)
  have "all_matches word_latin1 (lit ''blau!'') = [(''blau'', None)]"
    by (simp add: all_matches_def re_defs lib_defs Let_def)
  then have o: "find_override_and_weight word_latin1 (lit ''blau!'') = Inr (Some ((0, 0, 255), 7 / 10))"
    by (simp add: find_override_mean mean_override_def mean_def target_rgb_def
        OVERRIDE_COLOR_RGB_def suffix_weight_def Let_def)
  have "base_rgb (lit ''blau!'') (default_config\<lparr>mode := ANCHOR\<rparr>) = Inr (128, 128, 255)"
    using a by (simp add: base_rgb_def default_config_def)
  then show ?thesis
    by (simp add: with_override_def t blend_override_def o py_round_def Let_def)
qed

lemma exclamation_blau_punctuation:
  "punctuation_multipliers (lit ''blau!'') = (29 / 20, 13 / 10)"
  "apply_punctuation (38, 38, 255) (lit ''blau!'') (default_config\<lparr>mode := ANCHOR\<rparr>) = (31, 31, 255)"
proof -
  show m: "punctuation_multipliers (lit ''blau!'') = (29 / 20, 13 / 10)"
    by (simp add: punct_defs)
  have s: "apply_saturation (38, 38, 255) (13 / 10) = (16, 16, 255)"
    by (simp add: color_defs)
  have b: "apply_brightness (16, 16, 255) (29 / 20) = (23, 23, 255)"
    by (simp add: color_defs)
  have l0: "luminance_255 (38, 38, 255) = 268337 / 5000"
    by (simp add: luminance_255_def)
  have l1: "luminance_255 (23, 23, 255) = 24844 / 625"
    by (simp add: luminance_255_def)
  have c: "apply_brightness (23, 23, 255) (268337 / 5000 / (24844 / 625)) = (31, 31, 255)"
    by (simp add: color_defs)
  have p: "punctuation_mods (default_config\<lparr>mode := ANCHOR\<rparr>)"
    by (simp add: default_config_def)
  show "apply_punctuation (38, 38, 255) (lit ''blau!'') (default_config\<lparr>mode := ANCHOR\<rparr>) = (31, 31, 255)"
    unfolding apply_punctuation_stages [OF p m s b l0 l1] using c by simp
qed

text \<open>
  Claim C1. With punctuation modulation enabled, a darken request (brightness multiplier
  below 1) never leaves the stage with a higher luminance than it entered with, and a
  brighten request (multiplier above 1) never with a lower one. The code breaks both
  halves. For the text \<^verbatim>\<open>b?\<close> in the default configuration the stage receives
  \<open>(0, 0, 200)\<close> with multiplier 0.7 and returns \<open>(8, 8, 102)\<close>: the scaling back to the
  base luminance rounds each channel to the nearest integer, and the luminance goes from
  14.44 to 14.7868. For \<^verbatim>\<open>blau!\<close> in anchor mode the stage receives \<open>(38, 38, 255)\<close> with
  multiplier 1.45 and returns \<open>(31, 31, 255)\<close>: the blue channel is clamped at 255, and the
  luminance goes from 53.6674 to 47.1728.
\<close>

theorem punctuation_stage_breaks_luminance_direction:
  "with_override W (lit ''b?'') default_config = Inr (0, 0, 200)
   \<and> fst (punctuation_multipliers (lit ''b?'')) < 1
   \<and> apply_punctuation (0, 0, 200) (lit ''b?'') default_config = (8, 8, 102)
   \<and> luminance_255 (0, 0, 200) < luminance_255 (8, 8, 102)
   \<and> with_override word_latin1 (lit ''blau!'') (default_config\<lparr>mode := ANCHOR\<rparr>) = Inr (38, 38, 255)
   \<and> 1 < fst (punctuation_multipliers (lit ''blau!''))
   \<and> apply_punctuation (38, 38, 255) (lit ''blau!'') (default_config\<lparr>mode := ANCHOR\<rparr>) = (31, 31, 255)
   \<and> luminance_255 (31, 31, 255) < luminance_255 (38, 38, 255)"
  by (simp add: question_b_override question_b_punctuation exclamation_blau_override
      exclamation_blau_punctuation luminance_255_def)

section \<open>Claims on single stages\<close>

text \<open>
  Claim C2. For every text and configuration the computation returns a result whose three
  channels are in \<open>[0, 255]\<close>. Every result that is returned is in range
  (\<open>compute_color_result\<close>), and one is returned in frequency mode and for every text
  without U+0130 (\<open>compute_color_returns\<close>). In anchor mode a text with U+0130 returns
  nothing: the lower-case form of that character has two characters, it compares between
  \<^verbatim>\<open>"a"\<close> and \<^verbatim>\<open>"z"\<close>, and \<^verbatim>\<open>ord\<close> raises TypeError on it.
\<close>

theorem dotted_capital_I_raises_in_anchor_mode:
  "compute_color W pizza_lookup [0x130] (default_config\<lparr>mode := ANCHOR\<rparr>) = Inl TypeError"
  by (rule compute_color_type_error) (simp_all add: default_config_def)

text \<open>
  Claim C3. In frequency mode the target peak of the length floor comes from the count of
  visible characters, for every denominator policy. The code passes the base count of the
  policy. The text \<^verbatim>\<open>rgb----\<close> has 7 visible characters, for which the target is 195, and
  3 letters: under the letters policy the floor scales \<open>(85, 85, 85)\<close> to the peak 200,
  where the visible policy scales to 195.
\<close>

theorem length_floor_target_from_base_count:
  "visible_len (transliterate_de (lit ''rgb----'')) = 7
   \<and> length_floor_target 7 = 195
   \<and> compute_rgb_freq (transliterate_de (lit ''rgb----'')) LETTERS = ((85, 85, 85), 3)
   \<and> length_floor_target 3 = 200
   \<and> base_rgb (transliterate_de (lit ''rgb----''))
        (default_config\<lparr>denominator := LETTERS\<rparr>) = Inr (200, 200, 200)
   \<and> compute_rgb_freq (transliterate_de (lit ''rgb----'')) VISIBLE = ((36, 36, 36), 7)
   \<and> base_rgb (transliterate_de (lit ''rgb----'')) default_config = Inr (195, 195, 195)"
proof -
  have t: "transliterate_de (lit ''rgb----'') = lit ''rgb----''"
    by (simp add: transliterate_de_def replacement_def mapping_de_def lit_def)
  have v: "visible_len (lit ''rgb----'') = 7"
    by (simp add: visible_len_def lib_defs)
  have t7: "length_floor_target 7 = 195" and t3: "length_floor_target 3 = 200"
    by (simp_all add: length_floor_target_def LENGTH_FLOOR_def Let_def)
  have f: "compute_rgb_freq (lit ''rgb----'') LETTERS = ((85, 85, 85), 3)"
    by (simp add: compute_rgb_freq_def letters_only_def count_in_def
        to_byte_0_1_def py_round_def lib_defs Let_def)
  have fv: "compute_rgb_freq (lit ''rgb----'') VISIBLE = ((36, 36, 36), 7)"
    by (simp add: compute_rgb_freq_def letters_only_def count_in_def visible_len_def
        to_byte_0_1_def py_round_def lib_defs Let_def)
  have l: "apply_length_floor_fn (85, 85, 85) 3 (default_config\<lparr>denominator := LETTERS\<rparr>)
      = (200, 200, 200)"
    by (simp add: apply_length_floor_fn_cases t3 default_config_def)
  have lv: "apply_length_floor_fn (36, 36, 36) 7 default_config = (195, 195, 195)"
    by (simp add: apply_length_floor_fn_cases t7 default_config_def)
  have b: "base_rgb (lit ''rgb----'') (default_config\<lparr>denominator := LETTERS\<rparr>) = Inr (200, 200, 200)"
    using f l by (simp add: base_rgb_def default_config_def)
  have bv: "base_rgb (lit ''rgb----'') default_config = Inr (195, 195, 195)"
    using fv lv by (simp add: base_rgb_def default_config_def)
  show ?thesis
    unfolding t using v t7 t3 f b fv bv by simp
qed

text \<open>
  Claim C8. Transliteration replaces each of the seven characters of the table by its
  digraph (with the case of the first letter kept) and leaves every other character as it
  is, in its place: the result is the concatenation of the per-character images, so it
  also distributes over concatenation of texts.
\<close>

theorem transliterate_de_digraphs:
  "transliterate_de s = concat (map digraph s)
   \<and> transliterate_de (s @ t) = transliterate_de s @ transliterate_de t"
  by (simp add: transliterate_de_map)

text \<open>
  Claim C5. The override resolver returns nothing when no pattern matches; otherwise the
  per-channel mean of the target colors of all matches, rounded, with the mean of their
  suffix weights clamped to \<open>[0, 0.70]\<close>. Matches are counted as often as they are found:
  a word that appears twice gives two matches, and two stems of one color that match the
  same word give two matches.
\<close>

theorem find_override_is_mean_of_all_matches:
  "find_override_and_weight W text_trans = Inr (mean_override W text_trans)
   \<and> all_matches word_latin1 (lit ''blau blau'') = [(''blau'', None), (''blau'', None)]
   \<and> all_matches word_latin1 (lit ''silbern'') = [(''silber'', None), (''silber'', None)]"
proof -
  have "all_matches word_latin1 (lit ''blau blau'') = [(''blau'', None), (''blau'', None)]"
    by (simp add: all_matches_def re_defs lib_defs Let_def)
  moreover have "all_matches word_latin1 (lit ''silbern'') = [(''silber'', None), (''silber'', None)]"
    by (simp add: all_matches_def re_defs lib_defs Let_def)
  ultimately show ?thesis
    by (simp add: find_override_mean)
qed

section \<open>The hex code and texts without marks\<close>

lemma hex_digits_small: "n < 16 \<Longrightarrow> hex_digits n = [hex_digit n]"
  by simp

lemma hex_digits_byte:
  assumes "16 \<le> n" "n < 256"
  shows "hex_digits n = [hex_digit (n div 16), hex_digit (n mod 16)]"
proof -
  from assms(2) have "n div 16 < 16" by simp
  then have "hex_digits (n div 16) = [hex_digit (n div 16)]"
    by (rule hex_digits_small)
  with assms(1) show ?thesis
    by (subst hex_digits.simps) simp
qed

lemma format_02X_byte:
  assumes "0 \<le> n" "n \<le> 255"
  shows "format_02X n = hex_byte n"
proof (cases "nat n < 16")
  case True
  then have "nat n div 16 = 0" "nat n mod 16 = nat n" by simp_all
  moreover have "hex_digit 0 = CHR ''0''" by (simp add: hex_digit_def)
  ultimately show ?thesis
    using assms(1) True
    by (simp add: format_02X_def hex_byte_def hex_digits_small del: hex_digits.simps)
next
  case False
  with assms(2) have "16 \<le> nat n" "nat n < 256" by simp_all
  from hex_digits_byte [OF this] assms(1) show ?thesis
    by (simp add: format_02X_def hex_byte_def del: hex_digits.simps)
qed

lemma rgb_to_hex_encoding:
  assumes "rgb_in_range c"
  shows "(case c of (r, g, b) \<Rightarrow> rgb_to_hex r g b) = hex_encoding c"
  using assms
  by (cases c) (simp add: rgb_in_range_def rgb_to_hex_def hex_encoding_def format_02X_byte)

text \<open>
  Claim C9. The hex field of every returned result is the upper-case \<^verbatim>\<open>#RRGGBB\<close> encoding
  of its rgb field, two zero-padded digits for each channel.
\<close>

theorem hex_is_encoding_of_rgb:
  assumes "compute_color W pizza_lookup original_text cfg = Inr res"
  shows "hex res = hex_encoding (rgb res) \<and> length (hex res) = 7"
proof -
  from compute_color_result [OF assms]
  have h: "hex res = (case rgb res of (r, g, b) \<Rightarrow> rgb_to_hex r g b)" and r: "rgb_in_range (rgb res)"
    by blast+
  from h rgb_to_hex_encoding [OF r] have "hex res = hex_encoding (rgb res)"
    by simp
  moreover have "length (hex_encoding (rgb res)) = 7"
    by (cases "rgb res") (simp add: hex_encoding_def hex_byte_def)
  ultimately show ?thesis by simp
qed

lemma question_b_result:
  "compute_color W (\<lambda>h. Unavailable) (lit ''b?'') default_config =
     Inr \<lparr>rgb = (8, 8, 102), hex = ''#080866'', name = ''blue''\<rparr>"
proof -
  have h: "rgb_to_hex 8 8 102 = ''#080866''"
    by (simp add: rgb_to_hex_def format_02X_def hex_digit_def)
  have n: "approx_color_name 8 8 102 = Inr ''blue''"
    by (simp add: approx_color_name_def rgb_to_hsv_def frac_part_def MAX_BYTE_def
        HSV_BLACK_VALUE_MAX_def HSV_WHITE_VALUE_MIN_def HSV_WHITE_SAT_MAX_def HSV_GRAY_SAT_MAX_def
        DEGREES_FULL_CIRCLE_def HUE_BANDS_def start_inclusive_def end_exclusive_def band_name_def
        Let_def)
  show ?thesis
    by (simp add: compute_color_def question_b_override question_b_punctuation h n
        resolve_display_name_def)
qed

theorem hex_is_encoding_of_rgb_witness:
  "compute_color word_latin1 (\<lambda>h. Unavailable) (lit ''b?'') default_config =
     Inr \<lparr>rgb = (8, 8, 102), hex = ''#080866'', name = ''blue''\<rparr>
   \<and> ''#080866'' = hex_encoding (8, 8, 102)"
proof -
  have e: "compute_color word_latin1 (\<lambda>h. Unavailable) (lit ''b?'') default_config =
     Inr \<lparr>rgb = (8, 8, 102), hex = ''#080866'', name = ''blue''\<rparr>"
    by (rule question_b_result)
  from hex_is_encoding_of_rgb [OF e] e show ?thesis by simp
qed

lemma set_py_rstrip: "set (py_rstrip s) \<subseteq> set s"
  unfolding py_rstrip_def using set_dropWhileD [of _ py_isspace "rev s"] by auto

lemma endswith_member: "endswith s c \<Longrightarrow> c \<in> set s"
  by (auto simp add: endswith_def)

lemma punctuation_score_plain:
  assumes "0x21 \<notin> set s" "0x3F \<notin> set s"
  shows "punctuation_score s = 0"
proof -
  have c: "py_count s 0x21 = 0" "py_count s 0x3F = 0"
    using assms by (auto simp add: py_count_def filter_empty_conv)
  have "\<not> endswith (py_rstrip s) 0x21" "\<not> endswith (py_rstrip s) 0x3F"
    using assms set_py_rstrip [of s] endswith_member by blast+
  with c show ?thesis
    by (simp add: punctuation_score_def PUNCT_def Let_def)
qed

lemma punctuation_multipliers_plain:
  assumes "0x21 \<notin> set s" "0x3F \<notin> set s"
  shows "punctuation_multipliers s = (1, 1)"
  by (simp add: punctuation_multipliers_def punctuation_score_plain [OF assms] Let_def)

lemma apply_saturation_one:
  assumes "rgb_in_range c"
  shows "apply_saturation c 1 = c"
  using assms by (cases c) (simp add: apply_saturation_def rgb_in_range_def clamp_byte_id Let_def)

lemma apply_brightness_one:
  assumes "rgb_in_range c"
  shows "apply_brightness c 1 = c"
  using assms by (cases c) (simp add: apply_brightness_def rgb_in_range_def clamp_byte_id Let_def)

lemma apply_punctuation_plain:
  assumes "0x21 \<notin> set s" "0x3F \<notin> set s" "rgb_in_range c"
  shows "apply_punctuation c s cfg = c"
  by (simp add: apply_punctuation_def punctuation_multipliers_plain [OF assms(1,2)]
      apply_saturation_one [OF assms(3)] apply_brightness_one [OF assms(3)] Let_def)

lemma with_override_ignores_punctuation_mods:
  "with_override W s (cfg\<lparr>punctuation_mods := x\<rparr>) = with_override W s cfg"
  by (simp add: with_override_def base_rgb_def apply_length_floor_fn_def Let_def)

text \<open>
  Claim C10. For a text without \<^verbatim>\<open>!\<close> and without \<^verbatim>\<open>?\<close> the punctuation score is 0, both
  multipliers are 1, the saturation and brightness adjustments at multiplier 1 leave
  every color with channels in \<open>[0, 255]\<close> as it is, and the computation with punctuation
  modulation enabled returns what it returns with the modulation disabled.
\<close>

theorem no_marks_no_modulation:
  assumes "0x21 \<notin> set s" "0x3F \<notin> set s"
  shows "punctuation_score s = 0
       \<and> punctuation_multipliers s = (1, 1)
       \<and> (rgb_in_range c \<longrightarrow> apply_saturation c 1 = c \<and> apply_brightness c 1 = c)
       \<and> compute_color W pizza_lookup s (cfg\<lparr>punctuation_mods := True\<rparr>) =
           compute_color W pizza_lookup s (cfg\<lparr>punctuation_mods := False\<rparr>)"
proof -
  have "compute_color W pizza_lookup s (cfg\<lparr>punctuation_mods := True\<rparr>) =
        compute_color W pizza_lookup s (cfg\<lparr>punctuation_mods := False\<rparr>)"
  proof (cases "with_override W s cfg")
    case (Inl e)
    then show ?thesis
      by (simp add: compute_color_def with_override_ignores_punctuation_mods)
  next
    case (Inr c0)
    then have "rgb_in_range c0" by (rule with_override_in_range)
    from apply_punctuation_plain [OF assms this]
    have "apply_punctuation c0 s (cfg\<lparr>punctuation_mods := True\<rparr>) =
          apply_punctuation c0 s (cfg\<lparr>punctuation_mods := False\<rparr>)"
      by simp
    with Inr show ?thesis
      by (simp add: compute_color_def with_override_ignores_punctuation_mods)
  qed
  then show ?thesis
    using punctuation_score_plain [OF assms] punctuation_multipliers_plain [OF assms]
      apply_saturation_one apply_brightness_one by blast
qed

theorem no_marks_no_modulation_witness:
  "0x21 \<notin> set (lit ''blau'') \<and> 0x3F \<notin> set (lit ''blau'') \<and> rgb_in_range (0, 0, 255)
   \<and> punctuation_multipliers (lit ''blau'') = (1, 1)
   \<and> apply_saturation (0, 0, 255) 1 = (0, 0, 255) \<and> apply_brightness (0, 0, 255) 1 = (0, 0, 255)
   \<and> compute_color word_latin1 (\<lambda>h. Unavailable) (lit ''blau'')
        (default_config\<lparr>punctuation_mods := True\<rparr>) =
      compute_color word_latin1 (\<lambda>h. Unavailable) (lit ''blau'')
        (default_config\<lparr>punctuation_mods := False\<rparr>)"
proof -
  have h1: "0x21 \<notin> set (lit ''blau'')" and h2: "0x3F \<notin> set (lit ''blau'')"
    by (simp_all add: lit_def)
  have h3: "rgb_in_range (0, 0, 255)"
    by (simp add: rgb_in_range_def)
  from no_marks_no_modulation [OF h1 h2, of "(0, 0, 255)" word_latin1 "\<lambda>h. Unavailable" default_config]
    h1 h2 h3 show ?thesis by simp
qed

section \<open>Anchor colors and hue names\<close>













end
